theory Spec2Isabelle
  imports Complex_Main "HOL-Library.Multiset" "HOL-Library.Sublist"
begin

section \<open>Python strings\<close>

text \<open>
  A Python \<open>str\<close> is a sequence of Unicode code points. Where the code looks inside a
  string (the reconciler of \<open>web/app.py\<close>: \<open>in\<close>, \<open>isalnum\<close>, \<open>lower\<close>, \<open>replace\<close>,
  \<open>strip\<close>) a string is a list of code points, so that a Hangul syllable is one element
  as it is one character for Python. \<open>py\<close> writes an ASCII literal of the source.
\<close>

type_synonym pystr = "nat list"

definition py :: "string \<Rightarrow> pystr" where
  "py s = map of_char s"

text \<open>
  \<open>str.isalnum\<close>, \<open>str.lower\<close> and the white space that \<open>str.strip\<close> removes are read
  from the Unicode tables of the Python runtime. They are parameters of the model:
  \<open>lower\<close> maps whole strings because Python lowers some characters by context and
  some to more than one code point.
\<close>

record unicode =
  isalnum :: "nat \<Rightarrow> bool"
  lower :: "pystr \<Rightarrow> pystr"
  isspace :: "nat \<Rightarrow> bool"

text \<open>\<open>a in b\<close> on strings: \<open>a\<close> occurs in \<open>b\<close> as a contiguous run; the empty string
  occurs in every string.\<close>

fun str_in :: "pystr \<Rightarrow> pystr \<Rightarrow> bool" where
  "str_in a [] = (a = [])"
| "str_in a (c # cs) = (prefix a (c # cs) \<or> str_in a cs)"

text \<open>\<open>s.replace(old, new)\<close> for a non-empty \<open>old\<close> (the source replaces the literal
  \<open>'week'\<close>): occurrences are found from the left and do not overlap. The first
  argument of \<open>replace_from\<close> counts the characters of a found occurrence that are
  still to be skipped.\<close>

fun replace_from :: "nat \<Rightarrow> pystr \<Rightarrow> pystr \<Rightarrow> pystr \<Rightarrow> pystr" where
  "replace_from k old new [] = []"
| "replace_from (Suc k) old new (c # cs) = replace_from k old new cs"
| "replace_from 0 old new (c # cs) =
     (if prefix old (c # cs) then new @ replace_from (length old - 1) old new cs
      else c # replace_from 0 old new cs)"

definition replace :: "pystr \<Rightarrow> pystr \<Rightarrow> pystr \<Rightarrow> pystr" where
  "replace s old new = replace_from 0 old new s"

definition strip :: "'a unicode_scheme \<Rightarrow> pystr \<Rightarrow> pystr" where
  "strip U s = rev (dropWhile (isspace U) (rev (dropWhile (isspace U) s)))"

text \<open>\<open>def normalize(s): return ''.join(e for e in s if e.isalnum()).lower()\<close>\<close>

definition normalize :: "'a unicode_scheme \<Rightarrow> pystr \<Rightarrow> pystr" where
  "normalize U s = lower U (filter (isalnum U) s)"


section \<open>The catalog reconciler\<close>

text \<open>
  \<open>class LectureInfo\<close> of \<open>web/scraper.py\<close>. The class defines no \<open>__eq__\<close>, so
  \<open>v in remaining_lectures\<close> and \<open>remaining_lectures.remove(v)\<close> compare objects by
  identity. \<open>parse_lecture_list\<close> builds one object per lecture with the id
  \<open>f"{course_id}_{lecture_counter}"\<close>, so the objects of one list differ in their ids
  and equality of the records below is equality of the objects.
\<close>

record lecture =
  lecture_id :: pystr
  title :: pystr
  week :: pystr
  lec_status :: pystr
  activity_url :: pystr
  course_name :: pystr
  course_id :: pystr

text \<open>A material or an assignment is a dictionary of strings that the reconciler hands
  on unread.\<close>

type_synonym pydict = "(pystr \<times> pystr) list"

text \<open>A section as \<open>parse_course_content\<close> returns it: a dictionary with the keys
  \<open>title\<close>, \<open>materials\<close> and \<open>assignments\<close>, each read with \<open>section.get(key, default)\<close>.\<close>

record raw_section =
  raw_title :: "pystr option"
  raw_materials :: "pydict list option"
  raw_assignments :: "pydict list option"

text \<open>The dictionary built for each video of a section.\<close>

record video =
  v_id :: pystr
  v_title :: pystr
  v_week :: pystr
  v_status :: pystr
  v_activity_url :: pystr
  v_type :: pystr

definition video_of :: "lecture \<Rightarrow> video" where
  "video_of v = \<lparr>v_id = lecture_id v, v_title = title v, v_week = week v,
     v_status = lec_status v, v_activity_url = activity_url v, v_type = py ''video''\<rparr>"

record course_section =
  sec_title :: pystr
  sec_videos :: "video list"
  sec_materials :: "pydict list"
  sec_assignments :: "pydict list"

text \<open>
  The test of the inner loop (\<open>web/app.py\<close> lines 310 to 314, and again 503 to 507):
  \<^verbatim>\<open>
  if lecture.week in sec_title or normalize(lecture.week) in normalize(sec_title):
      found_videos.append(lecture)
  elif lecture.week.lower().replace('week', '').strip() in sec_title:
      found_videos.append(lecture)
  \<close>
\<close>

definition week_matches :: "'a unicode_scheme \<Rightarrow> pystr \<Rightarrow> pystr \<Rightarrow> bool" where
  "week_matches U wk ttl =
     (if str_in wk ttl \<or> str_in (normalize U wk) (normalize U ttl) then True
      else if str_in (strip U (replace (lower U wk) (py ''week'') [])) ttl then True
      else False)"

text \<open>
  \<^verbatim>\<open>
  for v in found_videos:
      if v in remaining_lectures:
          remaining_lectures.remove(v)
          sec_videos.append({...})
  \<close>
  The function returns the remaining lectures and the videos of the section.
\<close>

fun move_found :: "lecture list \<Rightarrow> lecture list \<Rightarrow> video list \<Rightarrow> lecture list \<times> video list" where
  "move_found [] remaining_lectures videos = (remaining_lectures, videos)"
| "move_found (v # found_videos) remaining_lectures videos =
     (if v \<in> set remaining_lectures
      then move_found found_videos (remove1 v remaining_lectures) (videos @ [video_of v])
      else move_found found_videos remaining_lectures videos)"

text \<open>The loop \<open>for section in sections_raw\<close>, with \<open>remaining_lectures\<close> and
  \<open>course_sections\<close> as its state.\<close>

fun merge_sections ::
  "'a unicode_scheme \<Rightarrow> raw_section list \<Rightarrow> lecture list \<Rightarrow> course_section list
    \<Rightarrow> lecture list \<times> course_section list" where
  "merge_sections U [] remaining_lectures course_sections = (remaining_lectures, course_sections)"
| "merge_sections U (s # sections_raw) remaining_lectures course_sections =
     (let ttl = (case raw_title s of Some t \<Rightarrow> t | None \<Rightarrow> py ''General'');
          mats = (case raw_materials s of Some m \<Rightarrow> m | None \<Rightarrow> []);
          asgs = (case raw_assignments s of Some a \<Rightarrow> a | None \<Rightarrow> []);
          found_videos = filter (\<lambda>l. week_matches U (week l) ttl) remaining_lectures;
          (remaining', videos) = move_found found_videos remaining_lectures []
      in merge_sections U sections_raw remaining'
           (course_sections @
             [\<lparr>sec_title = ttl, sec_videos = videos, sec_materials = mats,
               sec_assignments = asgs\<rparr>]))"

definition general_section :: raw_section where
  "general_section = \<lparr>raw_title = Some (py ''General''), raw_materials = Some [],
     raw_assignments = Some []\<rparr>"

text \<open>
  The merge of a course's videos into its sections, \<open>web/app.py\<close> lines 288 to 349 in
  \<open>fetch_all_courses\<close> and the same text at lines 481 to 542 in \<open>refresh_course\<close>: the
  default section, the loop over the sections, and the section \<open>Other Videos\<close> for
  the lectures that are left.
\<close>

definition sections_used :: "raw_section list \<Rightarrow> lecture list \<Rightarrow> raw_section list" where
  "sections_used sections_raw lectures =
     (if sections_raw = [] \<and> lectures \<noteq> [] then [general_section] else sections_raw)"

definition other_videos :: "lecture list \<Rightarrow> course_section" where
  "other_videos remaining_lectures =
     \<lparr>sec_title = py ''Other Videos'', sec_videos = map video_of remaining_lectures,
       sec_materials = [], sec_assignments = []\<rparr>"

definition merge_videos ::
  "'a unicode_scheme \<Rightarrow> raw_section list \<Rightarrow> lecture list \<Rightarrow> course_section list" where
  "merge_videos U sections_raw lectures =
     (let (remaining_lectures, course_sections) =
            merge_sections U (sections_used sections_raw lectures) lectures []
      in if remaining_lectures \<noteq> [] then course_sections @ [other_videos remaining_lectures]
         else course_sections)"

text \<open>All videos of a list of sections, in order.\<close>

definition all_videos :: "course_section list \<Rightarrow> video list" where
  "all_videos ss = concat (map sec_videos ss)"



text \<open>The title a declared section is listed under: \<open>section.get('title', 'General')\<close>.\<close>

definition declared_title :: "raw_section \<Rightarrow> pystr" where
  "declared_title s = (case raw_title s of Some t \<Rightarrow> t | None \<Rightarrow> py ''General'')"

text \<open>
  The three rules in the words of the specification, section 4.4: (a) the week label is
  contained in the section title, (b) it is contained after both are normalised to
  lowercase alphanumerics, (c) the week label with the literal word "week" stripped and
  trimmed appears in the section title. They are compared with \<open>week_matches\<close> below.
\<close>

definition spec_rule_a :: "pystr \<Rightarrow> pystr \<Rightarrow> bool" where
  "spec_rule_a wk ttl = str_in wk ttl"

definition spec_rule_b :: "'a unicode_scheme \<Rightarrow> pystr \<Rightarrow> pystr \<Rightarrow> bool" where
  "spec_rule_b U wk ttl = str_in (normalize U wk) (normalize U ttl)"

definition spec_rule_c :: "'a unicode_scheme \<Rightarrow> pystr \<Rightarrow> pystr \<Rightarrow> bool" where
  "spec_rule_c U wk ttl = str_in (strip U (replace wk (py ''week'') [])) ttl"

text \<open>Rule (c) as the code has it: the week label is lowercased before \<open>'week'\<close> is
  removed.\<close>

definition code_rule_c :: "'a unicode_scheme \<Rightarrow> pystr \<Rightarrow> pystr \<Rightarrow> bool" where
  "code_rule_c U wk ttl = str_in (strip U (replace (lower U wk) (py ''week'') [])) ttl"

text \<open>
  Python's tables on the ASCII characters and on the Hangul syllables (U+AC00 to
  U+D7A3, all alphanumeric and without case). The concrete examples below use strings
  over these characters only; on other code points this table is not Python's.
\<close>

definition ascii_lower :: "nat \<Rightarrow> nat" where
  "ascii_lower c = (if 65 \<le> c \<and> c \<le> 90 then c + 32 else c)"

definition ascii_hangul :: unicode where
  "ascii_hangul = \<lparr>
     isalnum = (\<lambda>c. (48 \<le> c \<and> c \<le> 57) \<or> (65 \<le> c \<and> c \<le> 90) \<or> (97 \<le> c \<and> c \<le> 122)
                   \<or> (44032 \<le> c \<and> c \<le> 55203)),
     lower = map ascii_lower,
     isspace = (\<lambda>c. c = 32 \<or> (9 \<le> c \<and> c \<le> 13) \<or> (28 \<le> c \<and> c \<le> 31))\<rparr>"

text \<open>A lecture with a week label and an id, the other fields empty.\<close>

definition lec :: "pystr \<Rightarrow> pystr \<Rightarrow> lecture" where
  "lec i w = \<lparr>lecture_id = i, title = [], week = w, lec_status = py ''New'',
     activity_url = [], course_name = [], course_id = []\<rparr>"

text \<open>A declared section with a title and no materials or assignments.\<close>

definition declared :: "pystr \<Rightarrow> raw_section" where
  "declared t = \<lparr>raw_title = Some t, raw_materials = Some [], raw_assignments = Some []\<rparr>"

text \<open>
  What the rules give to each section, for the comparison with \<open>merge_videos\<close>: the
  \<open>k\<close>-th section gets the lectures whose week label matches its title and the title
  of no earlier section; the lectures that match no title are left over.
\<close>

definition spec_assigned ::
  "'a unicode_scheme \<Rightarrow> raw_section list \<Rightarrow> lecture list \<Rightarrow> nat \<Rightarrow> lecture list" where
  "spec_assigned U rs lectures k =
     filter (\<lambda>l. week_matches U (week l) (declared_title (rs ! k)) \<and>
                (\<forall>j<k. \<not> week_matches U (week l) (declared_title (rs ! j)))) lectures"

definition spec_unassigned ::
  "'a unicode_scheme \<Rightarrow> raw_section list \<Rightarrow> lecture list \<Rightarrow> lecture list" where
  "spec_unassigned U rs lectures =
     filter (\<lambda>l. \<forall>s\<in>set rs. \<not> week_matches U (week l) (declared_title s)) lectures"

text \<open>The section built for a declared section and its videos.\<close>

definition mk_section :: "raw_section \<Rightarrow> video list \<Rightarrow> course_section" where
  "mk_section s vs = \<lparr>sec_title = declared_title s, sec_videos = vs,
     sec_materials = (case raw_materials s of Some m \<Rightarrow> m | None \<Rightarrow> []),
     sec_assignments = (case raw_assignments s of Some a \<Rightarrow> a | None \<Rightarrow> [])\<rparr>"

text \<open>
  Scenario C of the specification: lectures with the week labels \<open>1\<close>\<^emph>\<open>ju-cha\<close>,
  \<open>2\<close>\<^emph>\<open>ju-cha\<close> and \<open>Extra\<close>, sections titled \<open>1\<close>\<^emph>\<open>ju-cha\<close>\<open>: Intro\<close> and
  \<open>2\<close>\<^emph>\<open>ju-cha\<close>\<open>: Data\<close>. \<open>ju_cha\<close> is the two Hangul syllables U+C8FC and U+CC28
  ("week" as a counter).
\<close>

definition ju_cha :: pystr where
  "ju_cha = [51452, 52264]"

definition scenario_lectures :: "lecture list" where
  "scenario_lectures = [lec (py ''c_0'') (py ''1'' @ ju_cha), lec (py ''c_1'') (py ''2'' @ ju_cha),
     lec (py ''c_2'') (py ''Extra'')]"

definition scenario_sections :: "raw_section list" where
  "scenario_sections = [declared (py ''1'' @ ju_cha @ py '': Intro''),
     declared (py ''2'' @ ju_cha @ py '': Data'')]"


section \<open>The job registry\<close>

text \<open>
  The entry of \<open>task_status\<close> that \<open>download_lectures\<close> creates (\<open>web/app.py\<close> lines 582
  to 593). The job code only compares and concatenates its strings, so they are plain
  strings here. \<open>items\<close> maps an item id to its progress and status.
\<close>

record job =
  status :: string
  progress :: nat
  total :: nat
  completed :: nat
  failed :: nat
  messages :: "string list"
  paused :: bool
  stopped :: bool
  current_lecture_index :: nat
  items :: "(string \<times> nat \<times> string) list"

definition new_job :: "nat \<Rightarrow> job" where
  "new_job n = \<lparr>status = ''running'', progress = 0, total = n, completed = 0, failed = 0,
     messages = [], paused = False, stopped = False, current_lecture_index = 0, items = []\<rparr>"

text \<open>\<open>task_status[task_id]['messages'].append(m)\<close>\<close>

definition say :: "string \<Rightarrow> job \<Rightarrow> job" where
  "say m j = j\<lparr>messages := messages j @ [m]\<rparr>"

text \<open>The answer of a control request: \<open>success\<close>, \<open>message\<close> and the HTTP status.\<close>

datatype reply = Reply bool string nat

type_synonym registry = "string \<rightharpoonup> job"

text \<open>
  \<open>pause_task\<close>, \<open>resume_task\<close> and \<open>cancel_task\<close> (\<open>web/app.py\<close> lines 780 to 818). Each
  is split into the check that the task exists and what it does to the job.
\<close>

definition pause_job :: "job \<Rightarrow> reply \<times> job" where
  "pause_job j =
     (if status j \<noteq> ''running'' then (Reply False ''Task is not running'' 400, j)
      else (Reply True ''Task paused'' 200, say ''Task paused by user'' (j\<lparr>paused := True\<rparr>)))"

definition resume_job :: "job \<Rightarrow> reply \<times> job" where
  "resume_job j =
     (if status j \<noteq> ''running'' then (Reply False ''Task is not running'' 400, j)
      else (Reply True ''Task resumed'' 200, say ''Task resumed by user'' (j\<lparr>paused := False\<rparr>)))"

definition cancel_job :: "job \<Rightarrow> reply \<times> job" where
  "cancel_job j =
     (Reply True ''Task cancelled'' 200,
      say ''Task cancelled by user'' (j\<lparr>stopped := True, paused := False, status := ''cancelled''\<rparr>))"

definition on_task :: "(job \<Rightarrow> reply \<times> job) \<Rightarrow> registry \<Rightarrow> string \<Rightarrow> reply \<times> registry" where
  "on_task f task_status task_id =
     (case task_status task_id of
        None \<Rightarrow> (Reply False ''Task not found'' 404, task_status)
      | Some j \<Rightarrow> (fst (f j), task_status(task_id \<mapsto> snd (f j))))"

definition pause_task :: "registry \<Rightarrow> string \<Rightarrow> reply \<times> registry" where
  "pause_task = on_task pause_job"

definition resume_task :: "registry \<Rightarrow> string \<Rightarrow> reply \<times> registry" where
  "resume_task = on_task resume_job"

definition cancel_task :: "registry \<Rightarrow> string \<Rightarrow> reply \<times> registry" where
  "cancel_task = on_task cancel_job"

text \<open>
  The states of the specification. \<open>cancel_task\<close> writes \<open>'cancelled'\<close> and the worker
  writes \<open>'stopped'\<close>: both are the state Stopped.
\<close>

definition is_stopped :: "string \<Rightarrow> bool" where
  "is_stopped st = (st = ''stopped'' \<or> st = ''cancelled'')"

definition terminal :: "string \<Rightarrow> bool" where
  "terminal st = (st = ''completed'' \<or> st = ''error'' \<or> is_stopped st)"


section \<open>The worker of a batch download\<close>

text \<open>
  What the body of the inner \<open>try\<close> of \<open>download_task\<close> (lines 629 to 752) does with one
  lecture depends on the caches and on the collaborators: the lecture is not in
  \<open>lectures_cache\<close>; \<open>extract_video_url\<close> returns nothing; \<open>download_video\<close> returns true or
  false; or a collaborator raises, either before the message \<open>Downloading\<close> is logged
  (\<open>extract_video_url\<close>, \<open>get_output_path\<close>) or after it (\<open>download_video\<close>). The string of
  an outcome is the title of the lecture, the second string of a raise is \<open>str(e)\<close>.
  In the web version \<open>transcriber\<close> and \<open>summarizer\<close> are \<open>None\<close>, so after a successful
  download only the test \<open>lecture_id in transcribe_ids\<close> of line 670 is evaluated before
  the update of the progress.
\<close>

datatype outcome =
    NotFound
  | NoVideoUrl string
  | Downloaded string
  | DownloadFailed string
  | RaisedBeforeDownload string string
  | RaisedInDownload string string

text \<open>
  The value of the key \<open>transcribe_ids\<close> of the request, which is any JSON value, as far
  as \<open>download_task\<close> uses it: its truth value (line 600) and the test
  \<open>lecture_id in transcribe_ids\<close> (line 670). A list is true when it is not empty, and the
  test on it does not raise. Of another value the truth value is given, and for a
  lecture id the \<open>str(e)\<close> of the \<open>TypeError\<close> that the test raises, if it raises: it does
  for \<open>null\<close>, a number and a boolean.
\<close>

datatype ids_arg = IdList "string list" | NoList bool "string \<Rightarrow> string option"

definition truth :: "ids_arg \<Rightarrow> bool" where
  "truth a = (case a of IdList xs \<Rightarrow> xs \<noteq> [] | NoList b r \<Rightarrow> b)"

definition in_raises :: "ids_arg \<Rightarrow> string \<Rightarrow> string option" where
  "in_raises a item = (case a of IdList xs \<Rightarrow> None | NoList b r \<Rightarrow> r item)"

text \<open>
  The request of \<open>download_lectures\<close> and the behaviour of the collaborators during one
  job. \<open>lecture_ids\<close> holds the items that the loop of line 612 enumerates.
  \<open>setup_error\<close> is \<open>str(e)\<close> when making the scraper or the downloader raises (lines 597
  and 598). \<open>percent\<close> is \<open>int((idx + 1) / len(lecture_ids) * 100)\<close>, which Python
  computes in floating point.
\<close>

record worker_env =
  lecture_ids :: "string list"
  transcribe_ids :: ids_arg
  summarize_audio_only :: bool
  analyze_video :: bool
  setup_error :: "string option"
  item_outcome :: "nat \<Rightarrow> outcome"
  percent :: "nat \<Rightarrow> nat \<Rightarrow> nat"

text \<open>
  The places of \<open>download_task\<close> at which another thread can read or write the job: before
  the first statement, at the first test of \<open>stopped\<close> (line 614, also the head of the
  \<open>for\<close> loop), in the loop that waits while \<open>paused\<close> (line 620), at the second test of
  \<open>stopped\<close> (line 624), before the \<open>try\<close> of an item (line 629), between the three writes
  of the progress update (lines 746 to 748), after the loop (line 754), and at the end.
\<close>

datatype pc = Start | CheckStopped | WaitPaused | CheckAgain | Process | SetCompleted
  | SetFailed | Finish | Done

text \<open>The job and the worker's own variables: its place, \<open>idx\<close>, and the local counters
  \<open>completed\<close> and \<open>failed\<close>.\<close>

record sys =
  task :: job
  pc :: pc
  idx :: nat
  l_completed :: nat
  l_failed :: nat

text \<open>Lines 615 to 617 and 625 to 627: the message, the state, and \<open>break\<close>. After the
  \<open>break\<close> the worker is at line 754.\<close>

definition stop_now :: "sys \<Rightarrow> sys" where
  "stop_now s = s\<lparr>task := (say ''Download stopped by user'' (task s))\<lparr>status := ''stopped''\<rparr>,
     pc := Finish\<rparr>"

text \<open>The paths of the inner \<open>try\<close> that leave the iteration without the progress update:
  \<open>continue\<close> and the handler at lines 750 to 752. When the test of line 670 raises, the
  lecture was downloaded and \<open>completed\<close> was incremented before the handler increments
  \<open>failed\<close>.\<close>

definition skip_update :: "string list \<Rightarrow> job \<Rightarrow> sys \<Rightarrow> sys" where
  "skip_update ms j s = s\<lparr>task := fold say ms j, l_failed := l_failed s + 1,
     pc := CheckStopped, idx := idx s + 1\<rparr>"

definition process_item :: "worker_env \<Rightarrow> sys \<Rightarrow> sys" where
  "process_item env s =
     (let lecture_id = lecture_ids env ! idx s;
          j = (task s)\<lparr>current_lecture_index := idx s\<rparr>
      in case item_outcome env (idx s) of
        NotFound \<Rightarrow> skip_update [''Lecture '' @ lecture_id @ '' not found''] j s
      | NoVideoUrl t \<Rightarrow>
          skip_update [''Extracting video URL for: '' @ t,
                       ''Failed to extract video URL for: '' @ t] j s
      | Downloaded t \<Rightarrow>
          (case in_raises (transcribe_ids env) lecture_id of
             None \<Rightarrow>
               s\<lparr>task := (fold say [''Extracting video URL for: '' @ t, ''Downloading: '' @ t,
                                     ''Downloaded: '' @ t] j)
                           \<lparr>progress := percent env (idx s + 1) (length (lecture_ids env))\<rparr>,
                 l_completed := l_completed s + 1, pc := SetCompleted\<rparr>
           | Some e \<Rightarrow>
               skip_update [''Extracting video URL for: '' @ t, ''Downloading: '' @ t,
                            ''Downloaded: '' @ t,
                            ''Error processing lecture '' @ lecture_id @ '': '' @ e] j
                 (s\<lparr>l_completed := l_completed s + 1\<rparr>))
      | DownloadFailed t \<Rightarrow>
          s\<lparr>task := (fold say [''Extracting video URL for: '' @ t, ''Downloading: '' @ t,
                                ''Failed to download: '' @ t] j)
                      \<lparr>progress := percent env (idx s + 1) (length (lecture_ids env))\<rparr>,
            l_failed := l_failed s + 1, pc := SetCompleted\<rparr>
      | RaisedBeforeDownload t e \<Rightarrow>
          skip_update [''Extracting video URL for: '' @ t,
                       ''Error processing lecture '' @ lecture_id @ '': '' @ e] j s
      | RaisedInDownload t e \<Rightarrow>
          skip_update [''Extracting video URL for: '' @ t, ''Downloading: '' @ t,
                       ''Error processing lecture '' @ lecture_id @ '': '' @ e] j s)"

text \<open>One step of the worker thread, from one such place to the next.\<close>

definition worker_step :: "worker_env \<Rightarrow> sys \<Rightarrow> sys" where
  "worker_step env s =
     (case pc s of
        Start \<Rightarrow>
          (case setup_error env of
             Some e \<Rightarrow> s\<lparr>task := say (''Task error: '' @ e) ((task s)\<lparr>status := ''error''\<rparr>),
                         pc := Done\<rparr>
           | None \<Rightarrow>
               if truth (transcribe_ids env) \<or> summarize_audio_only env \<or> analyze_video env
               then s\<lparr>task := say (''Transcription and analysis are not available in web ''
                                      @ ''version. Use local version for these features.'')
                                 ((task s)\<lparr>status := ''error''\<rparr>),
                       pc := Done\<rparr>
               else s\<lparr>pc := CheckStopped, idx := 0, l_completed := 0, l_failed := 0\<rparr>)
      | CheckStopped \<Rightarrow>
          if length (lecture_ids env) \<le> idx s then s\<lparr>pc := Finish\<rparr>
          else if stopped (task s) then stop_now s
          else s\<lparr>pc := WaitPaused\<rparr>
      | WaitPaused \<Rightarrow>
          if paused (task s) \<and> \<not> stopped (task s) then s else s\<lparr>pc := CheckAgain\<rparr>
      | CheckAgain \<Rightarrow> if stopped (task s) then stop_now s else s\<lparr>pc := Process\<rparr>
      | Process \<Rightarrow> process_item env s
      | SetCompleted \<Rightarrow> s\<lparr>task := (task s)\<lparr>completed := l_completed s\<rparr>, pc := SetFailed\<rparr>
      | SetFailed \<Rightarrow>
          s\<lparr>task := (task s)\<lparr>failed := l_failed s\<rparr>, pc := CheckStopped, idx := idx s + 1\<rparr>
      | Finish \<Rightarrow>
          s\<lparr>task := say ''All downloads completed!'' ((task s)\<lparr>status := ''completed''\<rparr>),
            pc := Done\<rparr>
      | Done \<Rightarrow> s)"

text \<open>
  The job runs beside the request handlers: an event is a step of the worker or a
  control request on the job. A status read returns \<open>task\<close> and changes nothing.
\<close>

datatype event = Work | Pause | Resume | Cancel

definition sys_step :: "worker_env \<Rightarrow> sys \<Rightarrow> event \<Rightarrow> sys" where
  "sys_step env s ev =
     (case ev of
        Work \<Rightarrow> worker_step env s
      | Pause \<Rightarrow> s\<lparr>task := snd (pause_job (task s))\<rparr>
      | Resume \<Rightarrow> s\<lparr>task := snd (resume_job (task s))\<rparr>
      | Cancel \<Rightarrow> s\<lparr>task := snd (cancel_job (task s))\<rparr>)"

definition run :: "worker_env \<Rightarrow> event list \<Rightarrow> sys \<Rightarrow> sys" where
  "run env evs s = foldl (sys_step env) s evs"

text \<open>
  The job of a request whose \<open>task_id\<close> no other request shares, seen from its record and
  its worker: \<open>download_lectures\<close> creates the record with \<open>total = len(lecture_ids)\<close>, and
  the events are the steps of its worker and the control requests on its id. The
  registry with all its threads follows below.
\<close>

definition start :: "worker_env \<Rightarrow> sys" where
  "start env = \<lparr>task = new_job (length (lecture_ids env)), pc = Start, idx = 0,
     l_completed = 0, l_failed = 0\<rparr>"

definition reachable :: "worker_env \<Rightarrow> sys \<Rightarrow> bool" where
  "reachable env s = (\<exists>evs. s = run env evs (start env))"


section \<open>The registry and its threads\<close>

text \<open>\<open>str(n)\<close> for the integer \<open>int(time.time())\<close>.\<close>

fun decimal :: "nat \<Rightarrow> string" where
  "decimal n = (if n < 10 then [''0123456789'' ! n]
     else decimal (n div 10) @ [''0123456789'' ! (n mod 10)])"

text \<open>
  A thread that runs \<open>download_task\<close>: the \<open>task_id\<close> and the request that its closure
  holds, and its own variables.
\<close>

record thread =
  th_id :: string
  th_env :: worker_env
  th_pc :: pc
  th_idx :: nat
  th_completed :: nat
  th_failed :: nat

text \<open>The global \<open>task_status\<close> and the threads started so far.\<close>

record app =
  app_jobs :: registry
  app_threads :: "thread list"

definition app_init :: app where
  "app_init = \<lparr>app_jobs = Map.empty, app_threads = []\<rparr>"

text \<open>
  \<open>download_lectures\<close> (lines 561 to 593 and 761 to 765) for a caller who is logged in, at
  the second \<open>sec\<close>: without lecture ids the answer is the status 400 and no job is made;
  otherwise \<open>task_id = f"download_{int(time.time())}"\<close>, a new record is stored under this
  id, replacing the record that a request of the same second has stored, and a thread is
  started. The answer carries the id.
\<close>

definition download_lectures :: "nat \<Rightarrow> worker_env \<Rightarrow> app \<Rightarrow> reply \<times> app" where
  "download_lectures sec env a =
     (if lecture_ids env = [] then (Reply False ''No lectures selected'' 400, a)
      else
        let task_id = ''download_'' @ decimal sec in
        (Reply True task_id 200,
         a\<lparr>app_jobs := (app_jobs a)(task_id \<mapsto> new_job (length (lecture_ids env))),
           app_threads := app_threads a @
             [\<lparr>th_id = task_id, th_env = env, th_pc = Start, th_idx = 0, th_completed = 0,
               th_failed = 0\<rparr>]\<rparr>))"

text \<open>A record and the variables of a thread that works on it, and one step of a thread
  on the record of its id. Records are never removed from \<open>task_status\<close>.\<close>

definition view :: "job \<Rightarrow> thread \<Rightarrow> sys" where
  "view j t = \<lparr>task = j, pc = th_pc t, idx = th_idx t, l_completed = th_completed t,
     l_failed = th_failed t\<rparr>"

definition thread_step :: "thread \<Rightarrow> registry \<Rightarrow> thread \<times> registry" where
  "thread_step t task_status =
     (case task_status (th_id t) of
        None \<Rightarrow> (t, task_status)
      | Some j \<Rightarrow>
          let s = worker_step (th_env t) (view j t) in
          (t\<lparr>th_pc := pc s, th_idx := idx s, th_completed := l_completed s,
             th_failed := l_failed s\<rparr>,
           task_status(th_id t \<mapsto> task s)))"

text \<open>What happens in the server: a download request at a second, a control request on
  an id, or a step of the thread with a number.\<close>

datatype action = Download nat worker_env | PauseTask string | ResumeTask string
  | CancelTask string | Thread nat

definition app_step :: "app \<Rightarrow> action \<Rightarrow> app" where
  "app_step a act =
     (case act of
        Download sec env \<Rightarrow> snd (download_lectures sec env a)
      | PauseTask task_id \<Rightarrow> a\<lparr>app_jobs := snd (pause_task (app_jobs a) task_id)\<rparr>
      | ResumeTask task_id \<Rightarrow> a\<lparr>app_jobs := snd (resume_task (app_jobs a) task_id)\<rparr>
      | CancelTask task_id \<Rightarrow> a\<lparr>app_jobs := snd (cancel_task (app_jobs a) task_id)\<rparr>
      | Thread k \<Rightarrow>
          if k < length (app_threads a)
          then (let (t, task_status) = thread_step (app_threads a ! k) (app_jobs a)
                in a\<lparr>app_jobs := task_status, app_threads := (app_threads a)[k := t]\<rparr>)
          else a)"

definition app_run :: "action list \<Rightarrow> app \<Rightarrow> app" where
  "app_run acts a = foldl app_step a acts"

text \<open>The thread \<open>k\<close> is the only one that works on the record of its id; and that record
  with the variables of the thread.\<close>

definition alone :: "app \<Rightarrow> nat \<Rightarrow> bool" where
  "alone a k = (k < length (app_threads a) \<and>
     list_all (\<lambda>k'. k' = k \<or> th_id (app_threads a ! k') \<noteq> th_id (app_threads a ! k))
       [0..<length (app_threads a)])"

text \<open>Every thread has a record under its id.\<close>

definition registered :: "app \<Rightarrow> bool" where
  "registered a = list_all (\<lambda>t. app_jobs a (th_id t) \<noteq> None) (app_threads a)"

definition job_view :: "app \<Rightarrow> nat \<Rightarrow> sys" where
  "job_view a k =
     view (the (app_jobs a (th_id (app_threads a ! k)))) (app_threads a ! k)"

text \<open>The test of line 670 raises for none of the requested lectures: so it is when
  \<open>transcribe_ids\<close> is a list.\<close>

definition test_is_safe :: "worker_env \<Rightarrow> bool" where
  "test_is_safe env =
     list_all (\<lambda>item. in_raises (transcribe_ids env) item = None) (lecture_ids env)"

text \<open>
  What then holds of the job and the worker's variables at every place of the worker, with
  \<open>n = len(lecture_ids)\<close>: the local counters count the items processed so far, the
  published \<open>completed\<close> is the local one except between an item and its update, the
  published \<open>failed\<close> is never ahead of the local one, and a job in the state \<open>error\<close> has
  processed nothing.
\<close>

definition counts_ok :: "worker_env \<Rightarrow> sys \<Rightarrow> bool" where
  "counts_ok env s =
     (let n = length (lecture_ids env); j = task s in
      total j = n \<and> failed j \<le> l_failed s \<and> completed j \<le> l_completed s \<and>
      (status j = ''error'' \<longrightarrow> pc s = Done \<and> completed j = 0 \<and> failed j = 0) \<and>
      (case pc s of
         Start \<Rightarrow> l_completed s = 0 \<and> l_failed s = 0 \<and> status j \<noteq> ''error''
       | CheckStopped \<Rightarrow> l_completed s + l_failed s = idx s \<and> idx s \<le> n \<and>
           completed j = l_completed s
       | WaitPaused \<Rightarrow> l_completed s + l_failed s = idx s \<and> idx s < n \<and>
           completed j = l_completed s
       | CheckAgain \<Rightarrow> l_completed s + l_failed s = idx s \<and> idx s < n \<and>
           completed j = l_completed s
       | Process \<Rightarrow> l_completed s + l_failed s = idx s \<and> idx s < n \<and>
           completed j = l_completed s
       | SetCompleted \<Rightarrow> l_completed s + l_failed s = idx s + 1 \<and> idx s < n \<and>
           l_completed s \<le> completed j + 1
       | SetFailed \<Rightarrow> l_completed s + l_failed s = idx s + 1 \<and> idx s < n \<and>
           completed j = l_completed s
       | Finish \<Rightarrow> l_completed s + l_failed s \<le> n \<and> completed j = l_completed s
       | Done \<Rightarrow> l_completed s + l_failed s \<le> n \<and> completed j = l_completed s))"

text \<open>An item that reaches the progress update: the download returned, with or without
  the file.\<close>

definition reaches_update :: "outcome \<Rightarrow> bool" where
  "reaches_update out = (case out of Downloaded t \<Rightarrow> True | DownloadFailed t \<Rightarrow> True
     | _ \<Rightarrow> False)"

text \<open>What holds in addition while no cancel request was made and every item reaches
  its progress update.\<close>

definition published_ok :: "worker_env \<Rightarrow> sys \<Rightarrow> bool" where
  "published_ok env s =
     (let n = length (lecture_ids env); j = task s in
      \<not> stopped j \<and> (status j = ''completed'' \<longrightarrow> pc s = Done) \<and>
      (case pc s of
         Start \<Rightarrow> True
       | SetCompleted \<Rightarrow> True
       | SetFailed \<Rightarrow> True
       | Finish \<Rightarrow> failed j = l_failed s \<and> l_completed s + l_failed s = n
       | Done \<Rightarrow> status j = ''completed'' \<longrightarrow>
           failed j = l_failed s \<and> l_completed s + l_failed s = n
       | _ \<Rightarrow> failed j = l_failed s))"

text \<open>
  What holds whatever \<open>transcribe_ids\<close> is: the published counts are never ahead of the
  worker's own, and they are zero before the worker's first step.
\<close>

definition behind :: "sys \<Rightarrow> bool" where
  "behind s = (completed (task s) \<le> l_completed s \<and> failed (task s) \<le> l_failed s
     \<and> (pc s = Start \<longrightarrow> completed (task s) = 0 \<and> failed (task s) = 0))"

text \<open>The number of items whose processing the worker has begun, or will still begin
  while the job stays paused or stopped: past the loop that waits, with \<open>stopped\<close> unset,
  the next item is on its way.\<close>

definition next_item_due :: "sys \<Rightarrow> nat" where
  "next_item_due s =
     (if pc s = Process \<or> (pc s = CheckAgain \<and> \<not> stopped (task s)) then 1 else 0)"

definition items_begun :: "sys \<Rightarrow> nat" where
  "items_begun s = idx s + (if pc s = SetCompleted \<or> pc s = SetFailed then 1 else 0)"

definition items_bound :: "sys \<Rightarrow> nat" where
  "items_bound s = items_begun s + next_item_due s"

text \<open>The worker run for \<open>k\<close> steps with no request in between.\<close>

definition work :: "worker_env \<Rightarrow> nat \<Rightarrow> sys \<Rightarrow> sys" where
  "work env k s = run env (replicate k Work) s"

text \<open>How many steps the worker is from its end once \<open>stopped\<close> is set, at most.\<close>

definition steps_to_end :: "pc \<Rightarrow> nat" where
  "steps_to_end p = (case p of Start \<Rightarrow> 3 | CheckStopped \<Rightarrow> 2 | WaitPaused \<Rightarrow> 3
     | CheckAgain \<Rightarrow> 2 | Process \<Rightarrow> 5 | SetCompleted \<Rightarrow> 4 | SetFailed \<Rightarrow> 3
     | Finish \<Rightarrow> 1 | Done \<Rightarrow> 0)"

text \<open>
  Concrete jobs. In \<open>demo_env\<close> the lectures \<open>L1\<close> and \<open>L2\<close> are requested; the download
  of the first fails and the second succeeds. In \<open>guard_env\<close> the request also asks for a
  transcript, which the web version refuses. In \<open>null_env\<close> the request for \<open>L1\<close> and \<open>L2\<close>
  has \<open>"transcribe_ids": null\<close>, the first lecture is downloaded and the download of the
  second fails; the text of the \<open>TypeError\<close> is that of CPython 3. In \<open>missing_env\<close> the
  one requested lecture is not in the cache.
\<close>

definition demo_env :: worker_env where
  "demo_env = \<lparr>lecture_ids = [''L1'', ''L2''], transcribe_ids = IdList [], summarize_audio_only = False,
     analyze_video = False, setup_error = None,
     item_outcome = (\<lambda>i. if i = 0 then DownloadFailed ''Intro'' else Downloaded ''Data''),
     percent = (\<lambda>k n. k * 100 div n)\<rparr>"

definition guard_env :: worker_env where
  "guard_env = demo_env\<lparr>lecture_ids := [''L1''], transcribe_ids := IdList [''L1'']\<rparr>"

definition quoted :: "string \<Rightarrow> string" where
  "quoted s = [CHR 0x27] @ s @ [CHR 0x27]"

definition null_env :: worker_env where
  "null_env = demo_env\<lparr>
     transcribe_ids :=
       NoList False (\<lambda>item. Some (''argument of type '' @ quoted ''NoneType''
                                     @ '' is not iterable'')),
     item_outcome := (\<lambda>i. if i = 0 then Downloaded ''Intro'' else DownloadFailed ''Data'')\<rparr>"

definition missing_env :: worker_env where
  "missing_env = demo_env\<lparr>lecture_ids := [''L1''], item_outcome := (\<lambda>i. NotFound)\<rparr>"


section \<open>The worker of a materials download\<close>

text \<open>
  \<open>download_materials\<close> and \<open>download_materials_task\<close> (\<open>web/app.py\<close> lines 1934 to 2130).
  The record of the job has the keys \<open>status\<close>, \<open>progress\<close>, \<open>total\<close>, \<open>completed\<close>, \<open>failed\<close>
  and \<open>messages\<close>; the keys \<open>paused\<close> and \<open>stopped\<close>, which it gets from \<open>pause_task\<close> and
  \<open>cancel_task\<close>, are unset in the new record. The key \<open>current_item\<close>, which the worker
  writes and nothing reads, is left out.
\<close>

definition new_materials_job :: job where
  "new_materials_job = \<lparr>status = ''running'', progress = 0, total = 0, completed = 0,
     failed = 0, messages = [''Fetching course content...''], paused = False, stopped = False,
     current_lecture_index = 0, items = []\<rparr>"

text \<open>
  What the worker meets. A file is already there, or \<open>download_file\<close> returns true or
  false. The description of a folder or of an assignment is empty, or it is written to
  its file, or writing it raises (with \<open>str(e)\<close>). A material is a file, or a folder with
  the description and the files that \<open>parse_folder_page\<close> returns, or making its directory
  raises; an assignment has the description, the requirements and the submissions that
  \<open>parse_assignment_page\<close> returns, or making its directory raises. The scraper's methods
  catch their own exceptions.
\<close>

datatype file_result = Exists | DownloadOk | DownloadFails

record file_item =
  fi_name :: string
  fi_result :: file_result

datatype description = DescriptionEmpty | DescriptionSaved | DescriptionFails string

datatype material_kind =
    RegularFile file_result
  | Folder description "file_item list"
  | FileDirRaises string
  | FolderDirRaises string

record material =
  mat_name :: string
  mat_kind :: material_kind

datatype assignment_page =
    AssignmentPage description "file_item list" "file_item list"
  | AssignmentDirRaises string

record assignment =
  as_name :: string
  as_page :: assignment_page

record content_section =
  cs_materials :: "material list"
  cs_assignments :: "assignment list"

text \<open>
  The request and the collaborators during one job: \<open>str(e)\<close> when the statements before
  the loop raise, what \<open>parse_course_content\<close> returns, a dictionary with the key \<open>error\<close>
  or the sections, and \<open>int((processed_count / (total_items or 1)) * 100)\<close>, which Python
  computes in floating point.
\<close>

datatype content = ContentError | Content "content_section list"

record materials_env =
  m_setup_error :: "string option"
  m_content :: content
  m_percent :: "nat \<Rightarrow> nat \<Rightarrow> nat"

text \<open>The record, the worker's \<open>processed_count\<close>, and the exception on its way to the
  handler of line 2120, if one was raised.\<close>

record mstate =
  m_job :: job
  processed_count :: nat
  m_raised :: "string option"

text \<open>One file of a folder, a requirement or a submission (lines 2037 to 2048, 2091 to
  2112); \<open>label\<close> is the beginning of the message.\<close>

definition count_file :: "string \<Rightarrow> file_item \<Rightarrow> job \<Rightarrow> job" where
  "count_file label f j =
     (case fi_result f of
        Exists \<Rightarrow> j\<lparr>completed := completed j + 1\<rparr>
      | DownloadOk \<Rightarrow> (say (label @ fi_name f) j)\<lparr>completed := completed j + 1\<rparr>
      | DownloadFails \<Rightarrow> (say (label @ fi_name f) j)\<lparr>failed := failed j + 1\<rparr>)"

text \<open>Lines 2024 to 2034 and 2081 to 2089.\<close>

definition save_description :: "string \<Rightarrow> description \<Rightarrow> job \<Rightarrow> job" where
  "save_description saved d j =
     (case d of
        DescriptionEmpty \<Rightarrow> j
      | DescriptionSaved \<Rightarrow> say saved j
      | DescriptionFails e \<Rightarrow> say (''Failed to save description: '' @ e) j)"

text \<open>The head of both inner loops (lines 2012 to 2014 and 2069 to 2071).\<close>

definition next_item :: "'a materials_env_scheme \<Rightarrow> nat \<Rightarrow> mstate \<Rightarrow> mstate" where
  "next_item env total_items st =
     st\<lparr>processed_count := processed_count st + 1,
        m_job := (m_job st)\<lparr>progress := m_percent env (processed_count st + 1) total_items\<rparr>\<rparr>"

text \<open>A material (lines 2011 to 2065). Nothing is done once an exception is on its
  way.\<close>

definition process_material ::
  "'a materials_env_scheme \<Rightarrow> nat \<Rightarrow> material \<Rightarrow> mstate \<Rightarrow> mstate" where
  "process_material env total_items mat st0 =
     (if m_raised st0 \<noteq> None then st0
      else
        let st = next_item env total_items st0; j = m_job st in
        case mat_kind mat of
          Folder d files \<Rightarrow>
            st\<lparr>m_job := fold (count_file ''Downloading from folder: '') files
               (save_description (''Saved folder description: '' @ mat_name mat) d
                  (say (''Parsing folder: '' @ mat_name mat) j))\<rparr>
        | FolderDirRaises e \<Rightarrow>
            st\<lparr>m_job := say (''Parsing folder: '' @ mat_name mat) j, m_raised := Some e\<rparr>
        | FileDirRaises e \<Rightarrow> st\<lparr>m_raised := Some e\<rparr>
        | RegularFile r \<Rightarrow>
            (case r of
               Exists \<Rightarrow>
                 st\<lparr>m_job := (say (''File exists: '' @ mat_name mat) j)
                               \<lparr>completed := completed j + 1\<rparr>\<rparr>
             | DownloadOk \<Rightarrow>
                 st\<lparr>m_job := (say (''Downloading file: '' @ mat_name mat) j)
                               \<lparr>completed := completed j + 1\<rparr>\<rparr>
             | DownloadFails \<Rightarrow>
                 st\<lparr>m_job := say (''Failed to download: '' @ mat_name mat)
                               ((say (''Downloading file: '' @ mat_name mat) j)
                                  \<lparr>failed := failed j + 1\<rparr>)\<rparr>))"

text \<open>An assignment (lines 2068 to 2114): its requirements, its submissions, and one
  more for the assignment itself.\<close>

definition process_assignment ::
  "'a materials_env_scheme \<Rightarrow> nat \<Rightarrow> assignment \<Rightarrow> mstate \<Rightarrow> mstate" where
  "process_assignment env total_items a st0 =
     (if m_raised st0 \<noteq> None then st0
      else
        let st = next_item env total_items st0;
            j = say (''Processing assignment: '' @ as_name a) (m_job st) in
        case as_page a of
          AssignmentDirRaises e \<Rightarrow> st\<lparr>m_job := j, m_raised := Some e\<rparr>
        | AssignmentPage d reqs subs \<Rightarrow>
            let j1 = save_description (''Saved assignment description: '' @ as_name a) d j;
                j2 = fold (count_file ''Downloading requirement: '') reqs j1;
                j3 = fold (count_file ''Downloading submission: '') subs j2
            in st\<lparr>m_job := j3\<lparr>completed := completed j3 + 1\<rparr>\<rparr>)"

definition process_section ::
  "'a materials_env_scheme \<Rightarrow> nat \<Rightarrow> content_section \<Rightarrow> mstate \<Rightarrow> mstate" where
  "process_section env total_items sec st =
     fold (process_assignment env total_items) (cs_assignments sec)
       (fold (process_material env total_items) (cs_materials sec) st)"

text \<open>The handler of lines 2120 to 2122.\<close>

definition task_error :: "string \<Rightarrow> job \<Rightarrow> job" where
  "task_error e j = say (''Task error: '' @ e) (j\<lparr>status := ''error''\<rparr>)"

text \<open>
  The worker, from the record as it finds it to the record as it leaves it. It reads
  neither \<open>paused\<close> nor \<open>stopped\<close>. \<open>total\<close> is set once, to the number of materials and
  assignments (line 1984; the comment at line 1983 says "Initial count - will be updated
  dynamically as we process folders"). On a content with the key \<open>error\<close> the worker sets
  the state and then looks up the key \<open>message\<close>, which the dictionary does not have (line
  1979): the \<open>KeyError\<close> goes to the handler.
\<close>

definition download_materials_task :: "'a materials_env_scheme \<Rightarrow> job \<Rightarrow> job" where
  "download_materials_task env j0 =
     (case m_setup_error env of
        Some e \<Rightarrow> task_error e j0
      | None \<Rightarrow>
          (case m_content env of
             ContentError \<Rightarrow> task_error (quoted ''message'') (j0\<lparr>status := ''error''\<rparr>)
           | Content sections \<Rightarrow>
               let total_items =
                     sum_list (map (\<lambda>s. length (cs_materials s) + length (cs_assignments s))
                                 sections);
                   j1 = say (''Found '' @ decimal total_items
                             @ '' items to process (folders will be expanded)'')
                          (j0\<lparr>total := total_items\<rparr>);
                   st = fold (process_section env total_items) sections
                          \<lparr>m_job = j1, processed_count = 0, m_raised = None\<rparr>
               in case m_raised st of
                    Some e \<Rightarrow> task_error e (m_job st)
                  | None \<Rightarrow>
                      say ''Download materials task completed''
                        ((m_job st)\<lparr>status := ''completed''\<rparr>)))"

text \<open>
  Two courses. In \<open>folder_env\<close> the course has one material, a folder with two files that
  are both downloaded. In \<open>files_env\<close> it has two files, both downloaded.
\<close>

definition folder_env :: materials_env where
  "folder_env = \<lparr>m_setup_error = None,
     m_content = Content [\<lparr>cs_materials =
        [\<lparr>mat_name = ''Slides'',
          mat_kind = Folder DescriptionEmpty
            [\<lparr>fi_name = ''a.pdf'', fi_result = DownloadOk\<rparr>,
             \<lparr>fi_name = ''b.pdf'', fi_result = DownloadOk\<rparr>]\<rparr>],
        cs_assignments = []\<rparr>],
     m_percent = (\<lambda>k n. k * 100 div n)\<rparr>"

definition files_env :: materials_env where
  "files_env = \<lparr>m_setup_error = None,
     m_content = Content [\<lparr>cs_materials =
        [\<lparr>mat_name = ''a.pdf'', mat_kind = RegularFile DownloadOk\<rparr>,
         \<lparr>mat_name = ''b.pdf'', mat_kind = RegularFile DownloadOk\<rparr>],
        cs_assignments = []\<rparr>],
     m_percent = (\<lambda>k n. k * 100 div n)\<rparr>"

section \<open>Catalog discovery and its cache\<close>

text \<open>\<open>class CourseInfo\<close> of \<open>web/scraper.py\<close>.\<close>

record course_info =
  ci_course_id :: pystr
  ci_course_name :: pystr
  ci_course_url :: pystr
  ci_year :: pystr
  ci_semester :: pystr
  ci_professor :: pystr
  ci_lectures :: "lecture list"

text \<open>The dictionary that \<open>fetch_all_courses\<close> appends to \<open>courses_data\<close> for a course
  (\<open>web/app.py\<close> lines 351 to 361).\<close>

record course_data =
  cd_course_id :: pystr
  cd_course_name :: pystr
  cd_year :: pystr
  cd_semester :: pystr
  cd_professor :: pystr
  cd_url :: pystr
  cd_loaded :: bool
  cd_lecture_count :: nat
  cd_sections :: "course_section list"

text \<open>An entry of \<open>available_semesters\<close>.\<close>

record semester_info =
  si_year :: pystr
  si_semester :: pystr
  si_course_count :: nat

text \<open>\<open>dict(auth_session.cookies)\<close>, the identity of the caller.\<close>

type_synonym cookies = "pystr \<rightharpoonup> pystr"

text \<open>The dictionary pickled into \<open>courses_cache.pkl\<close> (lines 371 to 377).\<close>

record cache_data =
  cached_courses_data :: "course_data list"
  cached_lectures :: "lecture list"
  cached_courses_cache :: "course_info list"
  cached_auth_cookies :: cookies
  cached_timestamp :: real

text \<open>The cache file: absent, or present with its modification time and its content,
  which is \<open>None\<close> when reading it back raises.\<close>

datatype cache_file = NoFile | CacheFile real "cache_data option"

text \<open>The globals of \<open>web/app.py\<close> that \<open>fetch_all_courses\<close> reads and writes, and the
  cache file.\<close>

record server =
  auth_session :: "cookies option"
  courses_cache :: "course_info list"
  lectures_cache :: "lecture list"
  cache_file :: cache_file

text \<open>The query parameters of a request, as \<open>request.args.get\<close> returns them.\<close>

record request_args =
  arg_year :: "pystr option"
  arg_semester :: "pystr option"
  arg_discover :: "pystr option"
  arg_force_refresh :: "pystr option"

text \<open>What writing the cache file does: it succeeds, \<open>open\<close> raises and the file stays,
  or \<open>pickle.dump\<close> raises and leaves a file that cannot be read back. The handler at
  lines 379 and 380 prints the exception and goes on.\<close>

datatype save_outcome = Saved | OpenFailed | DumpFailed

text \<open>
  The clock and the collaborators during one request: \<open>time.time()\<close> (one value for the
  request), the year and month of \<open>datetime.now()\<close>, the three scraper methods (each
  catches its own exceptions and returns an empty result), the index, among \<open>n\<close>
  submitted courses, of the course whose future \<open>as_completed\<close> yields last, and the
  outcome of writing the cache file.
\<close>

record fetch_env =
  tables :: unicode
  now :: real
  this_year :: int
  this_month :: nat
  parse_course_list :: "pystr \<Rightarrow> pystr \<Rightarrow> course_info list"
  parse_course_content :: "pystr \<Rightarrow> raw_section list \<times> pystr option"
  parse_lecture_list :: "pystr \<Rightarrow> lecture list"
  completes_last :: "nat \<Rightarrow> nat"
  save :: save_outcome

text \<open>The calls to the scraper that a request makes: the course list of a semester
  (primary), and the content and the lecture list of one course (secondary).\<close>

datatype call = ListCourses pystr pystr | CourseContent pystr | LectureList pystr

definition secondary :: "call \<Rightarrow> bool" where
  "secondary c = (case c of ListCourses y s \<Rightarrow> False | _ \<Rightarrow> True)"

text \<open>The answer of \<open>fetch_all_courses\<close>: status 401, the catalog (the key \<open>from_cache\<close> is
  present and true only when the cache was served, \<open>available_semesters\<close> only in
  discovery mode), or status 500 with the text of the exception.\<close>

record payload =
  p_courses :: "course_data list"
  p_total_courses :: nat
  p_from_cache :: bool
  p_available_semesters :: "semester_info list option"

datatype response = LoginRequired | Fetched payload | FetchError string

text \<open>\<open>str(n)\<close> for an integer.\<close>

fun digits :: "nat \<Rightarrow> pystr" where
  "digits n = (if n < 10 then [48 + n] else digits (n div 10) @ [48 + n mod 10])"

definition py_str :: "int \<Rightarrow> pystr" where
  "py_str i = (if i < 0 then 45 # digits (nat (- i)) else digits (nat i))"

text \<open>\<open>get_current_semester\<close> (lines 128 to 149).\<close>

definition get_current_semester :: "int \<Rightarrow> nat \<Rightarrow> pystr \<times> pystr" where
  "get_current_semester y month =
     (py_str y,
      if month = 1 \<or> month = 2 then py ''21''
      else if month \<in> {3, 4, 5, 6, 7} then py ''10''
      else if month = 8 then py ''11''
      else py ''20'')"

text \<open>The two nested loops of the discovery mode (lines 188 to 199), over the pairs of
  a year and a semester code in order, with \<open>all_courses\<close>, \<open>available_semesters\<close> and the
  calls made as their state.\<close>

definition semesters_to_check :: "int \<Rightarrow> (pystr \<times> pystr) list" where
  "semesters_to_check y =
     concat (map (\<lambda>k. map (\<lambda>sem. (py_str (y - int k), sem))
                          [py ''20'', py ''11'', py ''10'', py ''21''])
                 [0..<6])"

fun check_all ::
  "'a fetch_env_scheme \<Rightarrow> (pystr \<times> pystr) list
    \<Rightarrow> course_info list \<times> semester_info list \<times> call list
    \<Rightarrow> course_info list \<times> semester_info list \<times> call list" where
  "check_all env [] acc = acc"
| "check_all env ((check_year, check_sem) # rest) (all_courses, available_semesters, calls) =
     (let courses = parse_course_list env check_year check_sem;
          calls' = calls @ [ListCourses check_year check_sem] in
      if courses \<noteq> []
      then check_all env rest
             (all_courses @ courses,
              available_semesters @
                [\<lparr>si_year = check_year, si_semester = check_sem,
                  si_course_count = length courses\<rparr>],
              calls')
      else check_all env rest (all_courses, available_semesters, calls'))"

text \<open>Python's truth of an optional string: present and not empty.\<close>

definition truthy :: "pystr option \<Rightarrow> bool" where
  "truthy x = (case x of None \<Rightarrow> False | Some s \<Rightarrow> s \<noteq> [])"

text \<open>Lines 182 to 220: which course lists are fetched. The result is \<open>all_courses\<close>,
  \<open>available_semesters\<close> and the calls made.\<close>

definition discovery ::
  "'a fetch_env_scheme \<Rightarrow> request_args \<Rightarrow> course_info list \<times> semester_info list \<times> call list" where
  "discovery env args =
     (if arg_discover args = Some (py ''true'')
      then check_all env (semesters_to_check (this_year env)) ([], [], [])
      else if truthy (arg_year args) \<and> truthy (arg_semester args)
      then (let year = the (arg_year args); semester = the (arg_semester args);
                courses = parse_course_list env year semester;
                sem_key = year @ py ''-'' @ semester;
                available_semesters = [];
                existing_keys =
                  map (\<lambda>s. si_year s @ py ''-'' @ si_semester s) available_semesters
            in (courses,
                if sem_key \<notin> set existing_keys
                then available_semesters @
                  [\<lparr>si_year = year, si_semester = semester, si_course_count = length courses\<rparr>]
                else available_semesters,
                [ListCourses year semester]))
      else (let (current_year, current_sem) =
                  get_current_semester (this_year env) (this_month env);
                courses = parse_course_list env current_year current_sem
            in (courses, [], [ListCourses current_year current_sem])))"

text \<open>
  The read of the cache (lines 226 to 249): skipped when \<open>force_refresh\<close> is set or the
  file does not exist; the entry is served only if the age of the file is below 3600
  seconds, the file can be read, and the cookies stored in it are the caller's.
\<close>

definition fresh :: "'a fetch_env_scheme \<Rightarrow> cache_file \<Rightarrow> bool" where
  "fresh env f = (case f of NoFile \<Rightarrow> False | CacheFile mtime c \<Rightarrow> now env - mtime < 3600)"

definition cache_get ::
  "'a fetch_env_scheme \<Rightarrow> bool \<Rightarrow> cookies \<Rightarrow> cache_file \<Rightarrow> cache_data option" where
  "cache_get env force_refresh cks f =
     (if \<not> force_refresh \<and> f \<noteq> NoFile
      then (case f of
              NoFile \<Rightarrow> None
            | CacheFile mtime content \<Rightarrow>
                let cache_age = now env - mtime in
                if cache_age < 3600
                then (case content of
                        None \<Rightarrow> None
                      | Some cached_data \<Rightarrow>
                          if cached_auth_cookies cached_data = cks then Some cached_data
                          else None)
                else None)
      else None)"

text \<open>The write of the cache (lines 368 to 380).\<close>

definition cache_put :: "'a fetch_env_scheme \<Rightarrow> cache_data \<Rightarrow> cache_file \<Rightarrow> cache_file" where
  "cache_put env d f =
     (case save env of
        Saved \<Rightarrow> CacheFile (now env) (Some d)
      | OpenFailed \<Rightarrow> f
      | DumpFailed \<Rightarrow> CacheFile (now env) None)"

text \<open>\<open>parse_single_course\<close> (lines 257 to 278): the course with the professor and the
  lectures filled in, its raw sections and its lectures.\<close>

definition parse_single_course ::
  "'a fetch_env_scheme \<Rightarrow> course_info \<Rightarrow> course_info \<times> raw_section list \<times> lecture list" where
  "parse_single_course env course =
     (let (sections_raw, professor_parsed) = parse_course_content env (ci_course_id course);
          course' = (if truthy professor_parsed
                     then course\<lparr>ci_professor := the professor_parsed\<rparr> else course);
          lectures = parse_lecture_list env (ci_course_url course)
      in (course'\<lparr>ci_lectures := lectures\<rparr>, sections_raw, lectures))"

definition calls_of_course :: "course_info \<Rightarrow> call list" where
  "calls_of_course course = [CourseContent (ci_course_id course), LectureList (ci_course_url course)]"

text \<open>The entry of \<open>courses_data\<close> for a parsed course, with its videos merged into its
  sections.\<close>

definition course_entry ::
  "'a unicode_scheme \<Rightarrow> course_info \<times> raw_section list \<times> lecture list \<Rightarrow> course_data" where
  "course_entry U r =
     (case r of (course, sections_raw, lectures) \<Rightarrow>
        \<lparr>cd_course_id = ci_course_id course, cd_course_name = ci_course_name course,
          cd_year = ci_year course, cd_semester = ci_semester course,
          cd_professor = ci_professor course, cd_url = ci_course_url course,
          cd_loaded = True, cd_lecture_count = length lectures,
          cd_sections = merge_videos U sections_raw lectures\<rparr>)"

text \<open>
  The parallel parse of all courses (lines 251 to 366). Every course is parsed by
  \<open>parse_single_course\<close>, which fills in its professor and lectures. In the source only
  line 285, \<open>course, sections_raw, lectures = future.result()\<close>, is the body of the loop
  over the completed futures; the lines 286 to 361 follow the loop and run once, with the
  course, the sections and the lectures of the future that completed last. So
  \<open>courses_data\<close> gets one entry and \<open>all_lectures\<close> the lectures of that course, while
  \<open>courses_cache\<close> is the list of all courses. The result is \<open>courses_data\<close>,
  \<open>all_lectures\<close> and the courses. The list of courses is not empty here.
\<close>

definition parse_all ::
  "'a fetch_env_scheme \<Rightarrow> course_info list
    \<Rightarrow> course_data list \<times> lecture list \<times> course_info list" where
  "parse_all env all_courses =
     (let parsed = map (parse_single_course env) all_courses;
          (course, sections_raw, lectures) =
            parsed ! min (completes_last env (length parsed)) (length parsed - 1)
      in ([course_entry (tables env) (course, sections_raw, lectures)],
          lectures,
          map (\<lambda>(c, s, l). c) parsed))"

text \<open>
  \<open>fetch_all_courses\<close> (lines 153 to 395). The course lists are fetched before the cache
  is looked at. \<open>ThreadPoolExecutor(max_workers=min(5, len(all_courses)))\<close> raises
  \<open>ValueError\<close> when there is no course, which the handler at line 394 turns into the
  status 500.
\<close>

definition fetch_all_courses ::
  "'a fetch_env_scheme \<Rightarrow> request_args \<Rightarrow> server \<Rightarrow> response \<times> server \<times> call list" where
  "fetch_all_courses env args srv =
     (case auth_session srv of
        None \<Rightarrow> (LoginRequired, srv, [])
      | Some cks \<Rightarrow>
          let discover_all = (arg_discover args = Some (py ''true''));
              (all_courses, available_semesters, calls) = discovery env args;
              force_refresh = (arg_force_refresh args = Some (py ''true''))
          in case cache_get env force_refresh cks (cache_file srv) of
               Some cached_data \<Rightarrow>
                 (Fetched \<lparr>p_courses = cached_courses_data cached_data,
                    p_total_courses = length (cached_courses_data cached_data),
                    p_from_cache = True,
                    p_available_semesters =
                      (if discover_all then Some available_semesters else None)\<rparr>,
                  srv\<lparr>courses_cache := cached_courses_cache cached_data,
                      lectures_cache := cached_lectures cached_data\<rparr>,
                  calls)
             | None \<Rightarrow>
                 if all_courses = []
                 then (FetchError ''Error fetching courses: max_workers must be greater than 0'',
                       srv, calls)
                 else
                   let (courses_data, all_lectures, courses_cache') = parse_all env all_courses;
                       entry = \<lparr>cached_courses_data = courses_data,
                                 cached_lectures = all_lectures,
                                 cached_courses_cache = courses_cache',
                                 cached_auth_cookies = cks,
                                 cached_timestamp = now env\<rparr>
                   in (Fetched \<lparr>p_courses = courses_data,
                         p_total_courses = length courses_data,
                         p_from_cache = False,
                         p_available_semesters =
                           (if discover_all then Some available_semesters else None)\<rparr>,
                       srv\<lparr>courses_cache := courses_cache', lectures_cache := all_lectures,
                           cache_file := cache_put env entry (cache_file srv)\<rparr>,
                       calls @ concat (map calls_of_course all_courses)))"

text \<open>A concrete session: one course without sections or lectures in every semester,
  the clock at 1000 seconds, a working file system, and a caller with one cookie; and
  the same collaborators 2600 and 3600 seconds later.\<close>

definition demo_course :: course_info where
  "demo_course = \<lparr>ci_course_id = py ''101'', ci_course_name = py ''Algorithms'',
     ci_course_url = py ''/course/view.php?id=101'', ci_year = py ''2026'',
     ci_semester = py ''20'', ci_professor = [], ci_lectures = []\<rparr>"

definition demo_fetch :: fetch_env where
  "demo_fetch = \<lparr>tables = ascii_hangul, now = 1000, this_year = 2026, this_month = 11,
     parse_course_list = (\<lambda>y s. [demo_course]),
     parse_course_content = (\<lambda>i. ([], None)),
     parse_lecture_list = (\<lambda>u. []),
     completes_last = (\<lambda>n. n - 1),
     save = Saved\<rparr>"

definition demo_cookies :: cookies where
  "demo_cookies = Map.empty (py ''MoodleSession'' \<mapsto> py ''abc'')"

definition demo_server :: server where
  "demo_server = \<lparr>auth_session = Some demo_cookies, courses_cache = [], lectures_cache = [],
     cache_file = NoFile\<rparr>"

definition demo_args :: request_args where
  "demo_args = \<lparr>arg_year = None, arg_semester = None, arg_discover = None,
     arg_force_refresh = None\<rparr>"

definition demo_entry :: course_data where
  "demo_entry = \<lparr>cd_course_id = py ''101'', cd_course_name = py ''Algorithms'',
     cd_year = py ''2026'', cd_semester = py ''20'', cd_professor = [],
     cd_url = py ''/course/view.php?id=101'', cd_loaded = True, cd_lecture_count = 0,
     cd_sections = []\<rparr>"

text \<open>The cache entry that the first request of the session stores, and the server
  after that request.\<close>

definition demo_cached :: cache_data where
  "demo_cached = \<lparr>cached_courses_data = [demo_entry], cached_lectures = [],
     cached_courses_cache = [demo_course], cached_auth_cookies = demo_cookies,
     cached_timestamp = 1000\<rparr>"

definition demo_server1 :: server where
  "demo_server1 = demo_server\<lparr>courses_cache := [demo_course], lectures_cache := [],
     cache_file := CacheFile 1000 (Some demo_cached)\<rparr>"


section \<open>Properties of the reconciler\<close>

subsection \<open>The loops move exactly the matching lectures\<close>

lemma str_in_empty: "str_in [] s"
  by (cases s) simp_all

lemma move_found_filter_gen:
  "\<forall>x\<in>set pre. \<not> P x \<Longrightarrow>
   move_found (filter P xs) (pre @ xs) acc =
     (pre @ filter (\<lambda>x. \<not> P x) xs, acc @ map video_of (filter P xs))"
proof (induction xs arbitrary: pre acc)
  case Nil
  then show ?case by simp
next
  case (Cons x xs)
  show ?case
  proof (cases "P x")
    case True
    then have "x \<notin> set pre" using Cons.prems by auto
    then have r: "remove1 x (pre @ x # xs) = pre @ xs"
      by (simp add: remove1_append)
    show ?thesis using True r Cons.IH [OF Cons.prems] by simp
  next
    case False
    then have "\<forall>y\<in>set (pre @ [x]). \<not> P y" using Cons.prems by simp
    from Cons.IH [OF this, of acc] show ?thesis using False by simp
  qed
qed

lemma move_found_filter:
  "move_found (filter P xs) xs [] = (filter (\<lambda>x. \<not> P x) xs, map video_of (filter P xs))"
  using move_found_filter_gen [of "[]" P xs "[]"] by simp

lemma merge_sections_step:
  "merge_sections U (s # rs) rem acc =
     merge_sections U rs (filter (\<lambda>l. \<not> week_matches U (week l) (declared_title s)) rem)
       (acc @ [mk_section s
          (map video_of (filter (\<lambda>l. week_matches U (week l) (declared_title s)) rem))])"
  by (simp add: Let_def move_found_filter mk_section_def declared_title_def)

lemma merge_sections_char:
  "merge_sections U rs rem acc =
     (spec_unassigned U rs rem,
      acc @ map (\<lambda>k. mk_section (rs ! k) (map video_of (spec_assigned U rs rem k)))
              [0..<length rs])"
proof (induction rs arbitrary: rem acc)
  case Nil
  then show ?case by (simp add: spec_unassigned_def)
next
  case (Cons s rs)
  let ?M = "\<lambda>l s. week_matches U (week l) (declared_title s)"
  let ?rem1 = "filter (\<lambda>l. \<not> ?M l s) rem"
  have f1: "spec_unassigned U rs ?rem1 = spec_unassigned U (s # rs) rem"
    by (simp add: spec_unassigned_def conj_commute)
  have f2: "\<And>k. spec_assigned U rs ?rem1 k = spec_assigned U (s # rs) rem (Suc k)"
    by (auto simp: spec_assigned_def All_less_Suc2 intro!: filter_cong)
  have f3: "filter (\<lambda>l. ?M l s) rem = spec_assigned U (s # rs) rem 0"
    by (simp add: spec_assigned_def)
  have up: "[0..<length (s # rs)] = 0 # map Suc [0..<length rs]"
    by (simp add: upt_conv_Cons map_Suc_upt del: upt_Suc)
  show ?case
    by (simp only: merge_sections_step Cons.IH f1 f2 f3 up list.map map_map comp_def
          nth_Cons_0 nth_Cons_Suc append_Cons append_Nil append_assoc)
qed

lemma merge_videos_char:
  "merge_videos U sections_raw lectures =
     map (\<lambda>k. mk_section (sections_used sections_raw lectures ! k)
            (map video_of (spec_assigned U (sections_used sections_raw lectures) lectures k)))
         [0..<length (sections_used sections_raw lectures)]
     @ (if spec_unassigned U (sections_used sections_raw lectures) lectures = [] then []
        else [other_videos (spec_unassigned U (sections_used sections_raw lectures) lectures)])"
  by (simp add: merge_videos_def merge_sections_char)

subsection \<open>Nothing is lost and nothing is doubled\<close>

lemma move_found_mset:
  "move_found fs rem vs = (rem', vs') \<Longrightarrow>
     mset (map video_of rem') + mset vs' = mset (map video_of rem) + mset vs"
proof (induction fs arbitrary: rem vs)
  case Nil
  then show ?case by simp
next
  case (Cons v fs)
  show ?case
  proof (cases "v \<in> set rem")
    case True
    with Cons.prems have "move_found fs (remove1 v rem) (vs @ [video_of v]) = (rem', vs')"
      by simp
    from Cons.IH [OF this]
    have "mset (map video_of rem') + mset vs' =
            mset (map video_of (remove1 v rem)) + mset (vs @ [video_of v])" .
    also have "\<dots> = image_mset video_of (mset rem - {#v#}) + {#video_of v#} + mset vs"
      by simp
    also have "\<dots> = image_mset video_of (mset rem - {#v#} + {#v#}) + mset vs"
      by simp
    also have "mset rem - {#v#} + {#v#} = mset rem"
      using True by simp
    finally show ?thesis by simp
  next
    case False
    with Cons.prems have "move_found fs rem vs = (rem', vs')" by simp
    from Cons.IH [OF this] show ?thesis .
  qed
qed

lemma merge_sections_mset:
  "merge_sections U rs rem acc = (rem', out) \<Longrightarrow>
     mset (map video_of rem') + mset (all_videos out) =
     mset (map video_of rem) + mset (all_videos acc)"
proof (induction rs arbitrary: rem acc)
  case Nil
  then show ?case by simp
next
  case (Cons s rs)
  define ttl where "ttl = (case raw_title s of Some t \<Rightarrow> t | None \<Rightarrow> py ''General'')"
  define fs where "fs = filter (\<lambda>l. week_matches U (week l) ttl) rem"
  obtain r1 vs1 where mf: "move_found fs rem [] = (r1, vs1)"
    by (cases "move_found fs rem []")
  define sec where "sec = \<lparr>sec_title = ttl, sec_videos = vs1,
     sec_materials = (case raw_materials s of Some m \<Rightarrow> m | None \<Rightarrow> []),
     sec_assignments = (case raw_assignments s of Some a \<Rightarrow> a | None \<Rightarrow> [])\<rparr>"
  from Cons.prems have "merge_sections U rs r1 (acc @ [sec]) = (rem', out)"
    using mf by (simp add: Let_def ttl_def fs_def sec_def)
  from Cons.IH [OF this]
  have "mset (map video_of rem') + mset (all_videos out) =
          mset (map video_of r1) + mset (all_videos (acc @ [sec]))" .
  also have "\<dots> = (mset (map video_of r1) + mset vs1) + mset (all_videos acc)"
    by (simp add: all_videos_def sec_def)
  also have "mset (map video_of r1) + mset vs1 = mset (map video_of rem)"
    using move_found_mset [OF mf] by simp
  finally show ?case .
qed

lemma merge_videos_mset:
  "mset (all_videos (merge_videos U sections_raw lectures)) = mset (map video_of lectures)"
proof -
  define rs where "rs = sections_used sections_raw lectures"
  obtain rem out where ms: "merge_sections U rs lectures [] = (rem, out)"
    by (cases "merge_sections U rs lectures []")
  have eq: "mset (map video_of rem) + mset (all_videos out) = mset (map video_of lectures)"
    using merge_sections_mset [OF ms] by (simp add: all_videos_def)
  show ?thesis
  proof (cases "rem = []")
    case True
    then show ?thesis using ms eq by (simp add: merge_videos_def rs_def [symmetric])
  next
    case False
    then show ?thesis using ms eq
      by (simp add: merge_videos_def rs_def [symmetric] all_videos_def other_videos_def
            add.commute)
  qed
qed

lemma merge_videos_ids_mset:
  "mset (map v_id (all_videos (merge_videos U sections_raw lectures))) =
     mset (map lecture_id lectures)"
proof -
  have "mset (map v_id (all_videos (merge_videos U sections_raw lectures)))
        = image_mset v_id (mset (all_videos (merge_videos U sections_raw lectures)))"
    by simp
  also have "\<dots> = image_mset v_id (mset (map video_of lectures))"
    by (simp only: merge_videos_mset)
  also have "\<dots> = mset (map lecture_id lectures)"
    by (simp add: video_of_def image_mset.compositionality comp_def)
  finally show ?thesis .
qed

lemma distinct_concat_one:
  "distinct (concat xss) \<Longrightarrow> x \<in> set (concat xss) \<Longrightarrow>
     length (filter (\<lambda>xs. x \<in> set xs) xss) = 1"
proof (induction xss)
  case Nil
  then show ?case by simp
next
  case (Cons xs xss)
  show ?case
  proof (cases "x \<in> set xs")
    case True
    with Cons.prems have "\<forall>ys \<in> set xss. x \<notin> set ys" by auto
    then have "filter (\<lambda>xs. x \<in> set xs) xss = []" by (simp add: filter_empty_conv)
    with True show ?thesis by simp
  next
    case False
    with Cons.prems have "x \<in> set (concat xss)" "distinct (concat xss)" by auto
    with Cons.IH False show ?thesis by simp
  qed
qed

lemma merge_videos_first_general:
  "lectures \<noteq> [] \<Longrightarrow> sec_title (hd (merge_videos U [] lectures)) = py ''General''"
  by (subst merge_videos_char)
     (simp add: sections_used_def mk_section_def declared_title_def general_section_def)


subsection \<open>Concrete strings\<close>

lemma py_lits:
  "py ''week'' = [119, 101, 101, 107]"
  "py ''1'' = [49]" "py ''2'' = [50]" "py ''3'' = [51]"
  "py ''Extra'' = [69, 120, 116, 114, 97]"
  "py '': Intro'' = [58, 32, 73, 110, 116, 114, 111]"
  "py '': Data'' = [58, 32, 68, 97, 116, 97]"
  "py ''Week 3'' = [87, 101, 101, 107, 32, 51]"
  "py ''Week'' = [87, 101, 101, 107]"
  "py ''c_0'' = [99, 95, 48]" "py ''c_1'' = [99, 95, 49]" "py ''c_2'' = [99, 95, 50]"
  by (simp_all add: py_def)

lemmas string_eval = week_matches_def normalize_def strip_def replace_def ascii_hangul_def
  ascii_lower_def spec_rule_a_def spec_rule_b_def spec_rule_c_def code_rule_c_def ju_cha_def
  py_lits

lemma week_lec: "week (lec i w) = w"
  by (simp add: lec_def)

lemma declared_title_declared: "declared_title (declared t) = t"
  by (simp add: declared_title_def declared_def)

lemma scenario_matches:
  "week_matches ascii_hangul (py ''1'' @ ju_cha) (py ''1'' @ ju_cha @ py '': Intro'')"
  "\<not> week_matches ascii_hangul (py ''2'' @ ju_cha) (py ''1'' @ ju_cha @ py '': Intro'')"
  "\<not> week_matches ascii_hangul (py ''Extra'') (py ''1'' @ ju_cha @ py '': Intro'')"
  "week_matches ascii_hangul (py ''2'' @ ju_cha) (py ''2'' @ ju_cha @ py '': Data'')"
  "\<not> week_matches ascii_hangul (py ''Extra'') (py ''2'' @ ju_cha @ py '': Data'')"
  by (simp_all add: string_eval)

lemma scenario_eval:
  "merge_videos ascii_hangul scenario_sections scenario_lectures =
     [mk_section (declared (py ''1'' @ ju_cha @ py '': Intro''))
        [video_of (lec (py ''c_0'') (py ''1'' @ ju_cha))],
      mk_section (declared (py ''2'' @ ju_cha @ py '': Data''))
        [video_of (lec (py ''c_1'') (py ''2'' @ ju_cha))],
      other_videos [lec (py ''c_2'') (py ''Extra'')]]"
  unfolding merge_videos_def sections_used_def scenario_sections_def scenario_lectures_def
  by (simp add: merge_sections_step week_lec declared_title_declared scenario_matches
        del: merge_sections.simps(2))

lemma scenario_ids_distinct: "distinct (map lecture_id scenario_lectures)"
  by (simp add: scenario_lectures_def lec_def py_lits)

lemma week3_matches:
  "week_matches ascii_hangul (py ''Week 3'') (py ''3'' @ ju_cha)"
  "\<not> spec_rule_a (py ''Week 3'') (py ''3'' @ ju_cha)"
  "\<not> spec_rule_b ascii_hangul (py ''Week 3'') (py ''3'' @ ju_cha)"
  "\<not> spec_rule_c ascii_hangul (py ''Week 3'') (py ''3'' @ ju_cha)"
  by (simp_all add: string_eval)

lemma week_alone_vanishes:
  "strip ascii_hangul (replace (lower ascii_hangul (py ''Week'')) (py ''week'') []) = []"
  by (simp add: string_eval)


subsection \<open>Claim C3: reconciliation partitions the lectures\<close>

text \<open>
  Claim C3. For every course with a flat lecture list and a declared section list, the
  sections that the merge returns (the declared ones and the catch-all \<open>Other Videos\<close>)
  hold exactly the lectures of the course: as multisets the videos of all sections are
  the videos of the lectures, so there are \<open>N\<close> of them; since the lecture ids of a course
  are distinct, every lecture id occurs exactly once among all videos and in exactly one
  section. When no section was declared and there are lectures, the merge runs on the
  one synthetic section \<open>General\<close>, which comes first in the result.
\<close>

theorem reconcile_partitions_lectures:
  assumes "distinct (map lecture_id lectures)"
  shows "mset (all_videos (merge_videos U sections_raw lectures)) = mset (map video_of lectures)
     \<and> length (all_videos (merge_videos U sections_raw lectures)) = length lectures
     \<and> (\<forall>l\<in>set lectures.
           count_list (map v_id (all_videos (merge_videos U sections_raw lectures)))
             (lecture_id l) = 1)
     \<and> (\<forall>l\<in>set lectures.
           length (filter (\<lambda>s. lecture_id l \<in> set (map v_id (sec_videos s)))
                     (merge_videos U sections_raw lectures)) = 1)
     \<and> (sections_raw = [] \<and> lectures \<noteq> [] \<longrightarrow>
           merge_videos U sections_raw lectures = merge_videos U [general_section] lectures
           \<and> sec_title (hd (merge_videos U sections_raw lectures)) = py ''General'')"
proof -
  let ?out = "merge_videos U sections_raw lectures"
  have m: "mset (all_videos ?out) = mset (map video_of lectures)"
    by (rule merge_videos_mset)
  have len: "length (all_videos ?out) = length lectures"
    using arg_cong [OF m, of size] by simp
  have ids: "mset (map v_id (all_videos ?out)) = mset (map lecture_id lectures)"
    by (rule merge_videos_ids_mset)
  have d: "distinct (map v_id (all_videos ?out))"
    using assms ids by (metis mset_eq_imp_distinct_iff)
  have mem: "lecture_id l \<in> set (map v_id (all_videos ?out))" if "l \<in> set lectures" for l
  proof -
    have "lecture_id l \<in> set (map lecture_id lectures)" using that by simp
    then show ?thesis using ids by (metis mset_eq_setD)
  qed
  have c1: "count_list (map v_id (all_videos ?out)) (lecture_id l) = 1"
    if "l \<in> set lectures" for l
    using d mem [OF that] by (simp add: distinct_count_atmost_1 flip: count_mset)
  have cc: "map v_id (all_videos ?out) = concat (map (\<lambda>s. map v_id (sec_videos s)) ?out)"
    by (simp add: all_videos_def map_concat comp_def)
  have c2: "length (filter (\<lambda>s. lecture_id l \<in> set (map v_id (sec_videos s))) ?out) = 1"
    if "l \<in> set lectures" for l
  proof -
    have "length (filter (\<lambda>xs. lecture_id l \<in> set xs)
            (map (\<lambda>s. map v_id (sec_videos s)) ?out)) = 1"
      using d mem [OF that] unfolding cc by (rule distinct_concat_one)
    then show ?thesis by (simp add: filter_map comp_def)
  qed
  have g: "merge_videos U sections_raw lectures = merge_videos U [general_section] lectures
           \<and> sec_title (hd (merge_videos U sections_raw lectures)) = py ''General''"
    if "sections_raw = []" "lectures \<noteq> []"
    using that merge_videos_first_general [of lectures U]
    by (simp add: merge_videos_def sections_used_def)
  show ?thesis using m len c1 c2 g by blast
qed

text \<open>The theorem at Scenario C: three lectures, two declared sections.\<close>

theorem reconcile_partitions_lectures_witness:
  "distinct (map lecture_id scenario_lectures)
   \<and> length (all_videos (merge_videos ascii_hangul scenario_sections scenario_lectures)) = 3
   \<and> count_list (map v_id (all_videos
         (merge_videos ascii_hangul scenario_sections scenario_lectures))) (py ''c_2'') = 1
   \<and> length (filter (\<lambda>s. py ''c_2'' \<in> set (map v_id (sec_videos s)))
         (merge_videos ascii_hangul scenario_sections scenario_lectures)) = 1"
proof -
  have mem: "lec (py ''c_2'') (py ''Extra'') \<in> set scenario_lectures"
    by (simp add: scenario_lectures_def)
  have id: "lecture_id (lec (py ''c_2'') (py ''Extra'')) = py ''c_2''"
    by (simp add: lec_def)
  have len: "length scenario_lectures = 3"
    by (simp add: scenario_lectures_def)
  note inst = reconcile_partitions_lectures [OF scenario_ids_distinct,
    of ascii_hangul scenario_sections]
  from inst have a: "length (all_videos
      (merge_videos ascii_hangul scenario_sections scenario_lectures)) = 3"
    using len by simp
  from inst have "\<forall>l\<in>set scenario_lectures. count_list (map v_id (all_videos
      (merge_videos ascii_hangul scenario_sections scenario_lectures))) (lecture_id l) = 1"
    by blast
  from bspec [OF this mem] have b: "count_list (map v_id (all_videos
      (merge_videos ascii_hangul scenario_sections scenario_lectures))) (py ''c_2'') = 1"
    by (simp only: id)
  from inst have "\<forall>l\<in>set scenario_lectures.
      length (filter (\<lambda>s. lecture_id l \<in> set (map v_id (sec_videos s)))
        (merge_videos ascii_hangul scenario_sections scenario_lectures)) = 1"
    by blast
  from bspec [OF this mem] have c: "length (filter (\<lambda>s. py ''c_2'' \<in> set (map v_id (sec_videos s)))
        (merge_videos ascii_hangul scenario_sections scenario_lectures)) = 1"
    by (simp only: id)
  show ?thesis using scenario_ids_distinct a b c by blast
qed


subsection \<open>Claim C6: the three matching rules, in declared order\<close>

lemma week_matches_rules:
  "week_matches U wk ttl \<longleftrightarrow> spec_rule_a wk ttl \<or> spec_rule_b U wk ttl \<or> code_rule_c U wk ttl"
  by (simp add: week_matches_def spec_rule_a_def spec_rule_b_def code_rule_c_def)

text \<open>
  Claim C6, as amended. A lecture that is still unassigned is assigned to a declared
  section exactly when one of three rules holds: (a) its week label is contained in the
  section title, (b) the week label is contained in the title after both are normalised
  to lowercase alphanumerics, or (c) the week label, lowercased, with the literal
  \<open>week\<close> removed and then trimmed, is contained in the section title as it stands. The
  sections are processed in declared order and a matched lecture leaves the pool: the
  \<open>k\<close>-th section of the result is the \<open>k\<close>-th declared section with the videos of the
  lectures that match its title and the title of no earlier section, in the order of the
  lecture list; what matches no title follows in one section \<open>Other Videos\<close>. In
  Scenario C each declared section gets its one lecture and \<open>Extra\<close> is in
  \<open>Other Videos\<close>.
\<close>

theorem reconcile_follows_rules:
  "(week_matches U wk ttl \<longleftrightarrow>
      spec_rule_a wk ttl \<or> spec_rule_b U wk ttl \<or> code_rule_c U wk ttl)
   \<and> (\<forall>k < length (sections_used sections_raw lectures).
         merge_videos U sections_raw lectures ! k =
           mk_section (sections_used sections_raw lectures ! k)
             (map video_of (spec_assigned U (sections_used sections_raw lectures) lectures k)))
   \<and> drop (length (sections_used sections_raw lectures)) (merge_videos U sections_raw lectures) =
        (if spec_unassigned U (sections_used sections_raw lectures) lectures = [] then []
         else [other_videos (spec_unassigned U (sections_used sections_raw lectures) lectures)])
   \<and> map (\<lambda>s. (sec_title s, map v_week (sec_videos s)))
         (merge_videos ascii_hangul scenario_sections scenario_lectures) =
        [(py ''1'' @ ju_cha @ py '': Intro'', [py ''1'' @ ju_cha]),
         (py ''2'' @ ju_cha @ py '': Data'', [py ''2'' @ ju_cha]),
         (py ''Other Videos'', [py ''Extra''])]"
proof -
  let ?rs = "sections_used sections_raw lectures"
  let ?f = "\<lambda>k. mk_section (?rs ! k) (map video_of (spec_assigned U ?rs lectures k))"
  let ?t = "if spec_unassigned U ?rs lectures = [] then []
            else [other_videos (spec_unassigned U ?rs lectures)]"
  have ch: "merge_videos U sections_raw lectures = map ?f [0..<length ?rs] @ ?t"
    by (rule merge_videos_char)
  have a: "merge_videos U sections_raw lectures ! k = ?f k" if "k < length ?rs" for k
    using that by (simp only: ch nth_append length_map length_upt) simp
  have b: "drop (length ?rs) (merge_videos U sections_raw lectures) = ?t"
    by (simp only: ch) simp
  have c: "map (\<lambda>s. (sec_title s, map v_week (sec_videos s)))
         (merge_videos ascii_hangul scenario_sections scenario_lectures) =
        [(py ''1'' @ ju_cha @ py '': Intro'', [py ''1'' @ ju_cha]),
         (py ''2'' @ ju_cha @ py '': Data'', [py ''2'' @ ju_cha]),
         (py ''Other Videos'', [py ''Extra''])]"
    by (simp add: scenario_eval mk_section_def other_videos_def video_of_def
          declared_title_declared week_lec)
  show ?thesis using week_matches_rules a b c by blast
qed

text \<open>The theorem at Scenario C, for the first declared section.\<close>

theorem reconcile_follows_rules_witness:
  "0 < length (sections_used scenario_sections scenario_lectures)
   \<and> merge_videos ascii_hangul scenario_sections scenario_lectures ! 0 =
       mk_section (sections_used scenario_sections scenario_lectures ! 0)
         (map video_of (spec_assigned ascii_hangul
            (sections_used scenario_sections scenario_lectures) scenario_lectures 0))"
proof -
  have l: "0 < length (sections_used scenario_sections scenario_lectures)"
    by (simp add: sections_used_def scenario_sections_def)
  from reconcile_follows_rules [of ascii_hangul "[]" "[]" scenario_sections scenario_lectures]
  have "\<forall>k < length (sections_used scenario_sections scenario_lectures).
         merge_videos ascii_hangul scenario_sections scenario_lectures ! k =
           mk_section (sections_used scenario_sections scenario_lectures ! k)
             (map video_of (spec_assigned ascii_hangul
                (sections_used scenario_sections scenario_lectures) scenario_lectures k))"
    by blast
  with l show ?thesis by blast
qed

text \<open>
  Rule (c) as the claim words it leaves the week label in its case. The lecture with the
  week label \<open>Week 3\<close> is assigned to the section titled \<open>3\<close>\<^emph>\<open>ju-cha\<close> (the case
  the comment at line 312 of \<open>web/app.py\<close> names), and none of the three rules as
  worded holds for it.
\<close>

theorem rule_c_as_worded_counterexample:
  "sec_videos (hd (merge_videos ascii_hangul [declared (py ''3'' @ ju_cha)]
       [lec (py ''c_0'') (py ''Week 3'')])) = [video_of (lec (py ''c_0'') (py ''Week 3''))]
   \<and> \<not> spec_rule_a (py ''Week 3'') (py ''3'' @ ju_cha)
   \<and> \<not> spec_rule_b ascii_hangul (py ''Week 3'') (py ''3'' @ ju_cha)
   \<and> \<not> spec_rule_c ascii_hangul (py ''Week 3'') (py ''3'' @ ju_cha)"
proof -
  have "merge_videos ascii_hangul [declared (py ''3'' @ ju_cha)] [lec (py ''c_0'') (py ''Week 3'')]
      = [mk_section (declared (py ''3'' @ ju_cha)) [video_of (lec (py ''c_0'') (py ''Week 3''))]]"
    unfolding merge_videos_def sections_used_def
    by (simp add: merge_sections_step week_lec declared_title_declared week3_matches
          del: merge_sections.simps(2))
  then show ?thesis using week3_matches by (simp add: mk_section_def)
qed


subsection \<open>Claim C10: a week label that vanishes\<close>

lemma later_sections_unmatched:
  assumes "sections_raw \<noteq> []"
    and "s \<in> set (tl (merge_videos U sections_raw lectures))"
    and "v \<in> set (sec_videos s)"
  shows "\<exists>l2\<in>set lectures. v = video_of l2 \<and>
           \<not> week_matches U (week l2) (declared_title (hd sections_raw))"
proof -
  let ?rs = "sections_raw"
  have su: "sections_used sections_raw lectures = sections_raw"
    using assms(1) by (simp add: sections_used_def)
  let ?f = "\<lambda>k. mk_section (?rs ! k) (map video_of (spec_assigned U ?rs lectures k))"
  let ?t = "if spec_unassigned U ?rs lectures = [] then []
            else [other_videos (spec_unassigned U ?rs lectures)]"
  have ch: "merge_videos U sections_raw lectures = map ?f [0..<length ?rs] @ ?t"
    using merge_videos_char [of U sections_raw lectures] by (simp only: su)
  have n: "0 < length ?rs" using assms(1) by simp
  have up: "[0..<length ?rs] = 0 # [1..<length ?rs]"
    using n by (simp add: upt_conv_Cons)
  have tl: "tl (merge_videos U sections_raw lectures) = map ?f [1..<length ?rs] @ ?t"
    by (simp only: ch up list.map append_Cons list.sel)
  have hd0: "hd sections_raw = sections_raw ! 0"
    using assms(1) by (simp add: hd_conv_nth)
  from assms(2) have "s \<in> set (map ?f [1..<length ?rs]) \<or> s \<in> set ?t"
    by (simp only: tl set_append Un_iff)
  then show ?thesis
  proof
    assume "s \<in> set (map ?f [1..<length ?rs])"
    then obtain k where k: "1 \<le> k" "k < length ?rs" "s = ?f k" by auto
    with assms(3) obtain l2 where "l2 \<in> set (spec_assigned U ?rs lectures k)" "v = video_of l2"
      by (auto simp: mk_section_def)
    then show ?thesis using k hd0 by (auto simp: spec_assigned_def)
  next
    assume "s \<in> set ?t"
    then have "s = other_videos (spec_unassigned U ?rs lectures)"
      by (simp split: if_splits)
    with assms(3) obtain l2 where "l2 \<in> set (spec_unassigned U ?rs lectures)" "v = video_of l2"
      by (auto simp: other_videos_def)
    then show ?thesis using assms(1) by (auto simp: spec_unassigned_def)
  qed
qed

text \<open>
  Claim C10. For a course whose declared section list is not empty, a lecture whose
  week label is empty, or is the empty string once lowercased, freed of the literal
  \<open>week\<close> and trimmed, matches every section title (the empty string is contained in
  every string), so it is assigned to the first declared section and is in no later
  section of the result, \<open>Other Videos\<close> included.
\<close>

theorem empty_week_label_first_section:
  assumes "sections_raw \<noteq> []" and "l \<in> set lectures"
    and "week l = [] \<or> strip U (replace (lower U (week l)) (py ''week'') []) = []"
  shows "(\<forall>ttl. week_matches U (week l) ttl)
     \<and> sec_title (hd (merge_videos U sections_raw lectures)) = declared_title (hd sections_raw)
     \<and> video_of l \<in> set (sec_videos (hd (merge_videos U sections_raw lectures)))
     \<and> (\<forall>s\<in>set (tl (merge_videos U sections_raw lectures)). video_of l \<notin> set (sec_videos s))"
proof -
  have m: "week_matches U (week l) ttl" for ttl
    using assms(3) by (auto simp: week_matches_def str_in_empty)
  have su: "sections_used sections_raw lectures = sections_raw"
    using assms(1) by (simp add: sections_used_def)
  have n: "0 < length sections_raw" using assms(1) by simp
  have up: "[0..<length sections_raw] = 0 # [1..<length sections_raw]"
    using n by (simp add: upt_conv_Cons)
  have hd0: "hd sections_raw = sections_raw ! 0"
    using assms(1) by (simp add: hd_conv_nth)
  have hd: "hd (merge_videos U sections_raw lectures) =
      mk_section (sections_raw ! 0) (map video_of (spec_assigned U sections_raw lectures 0))"
    by (simp only: merge_videos_char su up list.map append_Cons list.sel)
  have t: "sec_title (hd (merge_videos U sections_raw lectures)) = declared_title (hd sections_raw)"
    by (simp add: hd hd0 mk_section_def)
  have "l \<in> set (spec_assigned U sections_raw lectures 0)"
    using assms(2) m by (simp add: spec_assigned_def)
  then have i: "video_of l \<in> set (sec_videos (hd (merge_videos U sections_raw lectures)))"
    by (simp add: hd mk_section_def)
  have o: "video_of l \<notin> set (sec_videos s)"
    if "s \<in> set (tl (merge_videos U sections_raw lectures))" for s
  proof
    assume "video_of l \<in> set (sec_videos s)"
    from later_sections_unmatched [OF assms(1) that this]
    obtain l2 where l2: "video_of l = video_of l2"
      "\<not> week_matches U (week l2) (declared_title (hd sections_raw))" by blast
    from l2(1) have "week l2 = week l"
      by (simp add: video_of_def)
    with l2(2) m show False by simp
  qed
  show ?thesis using m t i o by blast
qed

text \<open>The theorem at a lecture whose week label is \<open>Week\<close>.\<close>

theorem empty_week_label_first_section_witness:
  "scenario_sections \<noteq> []
   \<and> lec (py ''c_0'') (py ''Week'') \<in> set [lec (py ''c_0'') (py ''Week'')]
   \<and> strip ascii_hangul (replace (lower ascii_hangul (py ''Week'')) (py ''week'') []) = []
   \<and> sec_title (hd (merge_videos ascii_hangul scenario_sections [lec (py ''c_0'') (py ''Week'')]))
        = py ''1'' @ ju_cha @ py '': Intro''
   \<and> video_of (lec (py ''c_0'') (py ''Week''))
        \<in> set (sec_videos (hd (merge_videos ascii_hangul scenario_sections
                  [lec (py ''c_0'') (py ''Week'')])))"
proof -
  have a: "scenario_sections \<noteq> []" by (simp add: scenario_sections_def)
  have b: "lec (py ''c_0'') (py ''Week'') \<in> set [lec (py ''c_0'') (py ''Week'')]" by simp
  have c: "week (lec (py ''c_0'') (py ''Week'')) = [] \<or>
      strip ascii_hangul (replace (lower ascii_hangul (week (lec (py ''c_0'') (py ''Week''))))
        (py ''week'') []) = []"
    by (simp add: week_lec week_alone_vanishes)
  have d: "declared_title (hd scenario_sections) = py ''1'' @ ju_cha @ py '': Intro''"
    by (simp add: scenario_sections_def declared_title_declared)
  from empty_week_label_first_section [OF a b c]
  show ?thesis using a week_alone_vanishes d by simp
qed


section \<open>Properties of the job registry and the worker\<close>

declare decimal.simps [simp del]

lemma say_simps [simp]:
  "status (say m j) = status j" "progress (say m j) = progress j" "total (say m j) = total j"
  "completed (say m j) = completed j" "failed (say m j) = failed j"
  "paused (say m j) = paused j" "stopped (say m j) = stopped j"
  "current_lecture_index (say m j) = current_lecture_index j" "items (say m j) = items j"
  "messages (say m j) = messages j @ [m]"
  by (simp_all add: say_def)

lemma fold_say_simps [simp]:
  "status (fold say ms j) = status j" "progress (fold say ms j) = progress j"
  "total (fold say ms j) = total j"
  "completed (fold say ms j) = completed j" "failed (fold say ms j) = failed j"
  "paused (fold say ms j) = paused j" "stopped (fold say ms j) = stopped j"
  "current_lecture_index (fold say ms j) = current_lecture_index j"
  "items (fold say ms j) = items j"
  "messages (fold say ms j) = messages j @ ms"
  by (induction ms arbitrary: j) simp_all

lemma run_Nil [simp]: "run env [] s = s"
  by (simp add: run_def)

lemma run_Cons [simp]: "run env (ev # evs) s = run env evs (sys_step env s ev)"
  by (simp add: run_def)

lemma run_append: "run env (evs @ evs') s = run env evs' (run env evs s)"
  by (simp add: run_def)

lemma reachable_run: "reachable env s \<Longrightarrow> reachable env (run env evs s)"
  unfolding reachable_def by (metis run_append)

subsection \<open>The counters\<close>

lemma counts_ok_start: "counts_ok env (start env)"
  by (simp add: counts_ok_def start_def new_job_def)

lemma list_ids_safe: "transcribe_ids env = IdList xs \<Longrightarrow> test_is_safe env"
  by (simp add: test_is_safe_def in_raises_def list_all_iff)

lemma safe_item:
  "test_is_safe env \<Longrightarrow> i < length (lecture_ids env) \<Longrightarrow>
     in_raises (transcribe_ids env) (lecture_ids env ! i) = None"
  by (simp add: test_is_safe_def list_all_iff)

lemma counts_ok_worker:
  assumes "test_is_safe env" "counts_ok env s"
  shows "counts_ok env (worker_step env s)"
proof (cases "pc s")
  case Process
  with assms(2) have "idx s < length (lecture_ids env)"
    by (simp add: counts_ok_def Let_def)
  from safe_item [OF assms(1) this] Process assms(2) show ?thesis
    by (cases "item_outcome env (idx s)")
       (auto simp: counts_ok_def worker_step_def process_item_def skip_update_def Let_def)
qed (use assms(2) in \<open>auto simp: counts_ok_def worker_step_def stop_now_def
        Let_def split: option.splits\<close>)

lemma counts_ok_control:
  "counts_ok env s \<Longrightarrow> counts_ok env (s\<lparr>task := snd (pause_job (task s))\<rparr>)"
  "counts_ok env s \<Longrightarrow> counts_ok env (s\<lparr>task := snd (resume_job (task s))\<rparr>)"
  "counts_ok env s \<Longrightarrow> counts_ok env (s\<lparr>task := snd (cancel_job (task s))\<rparr>)"
  by (cases "pc s"; auto simp: counts_ok_def pause_job_def resume_job_def cancel_job_def Let_def)+

lemma counts_ok_step:
  "test_is_safe env \<Longrightarrow> counts_ok env s \<Longrightarrow> counts_ok env (sys_step env s ev)"
  by (cases ev) (simp_all add: sys_step_def counts_ok_worker counts_ok_control)

lemma counts_ok_run:
  "test_is_safe env \<Longrightarrow> counts_ok env s \<Longrightarrow> counts_ok env (run env evs s)"
  by (induction evs arbitrary: s) (simp_all add: counts_ok_step)

lemma counts_ok_reachable: "test_is_safe env \<Longrightarrow> reachable env s \<Longrightarrow> counts_ok env s"
  by (auto simp: reachable_def counts_ok_run counts_ok_start)

lemma counts_ok_le: "counts_ok env s \<Longrightarrow> completed (task s) + failed (task s) \<le> total (task s)"
  by (cases "pc s") (auto simp: counts_ok_def Let_def)

lemma counts_ok_error:
  "counts_ok env s \<Longrightarrow> status (task s) = ''error'' \<Longrightarrow>
     completed (task s) = 0 \<and> failed (task s) = 0"
  by (simp add: counts_ok_def Let_def)


subsection \<open>When every item reaches its update and nobody cancels\<close>

lemma published_ok_start: "published_ok env (start env)"
  by (simp add: published_ok_def start_def new_job_def)

lemma published_ok_worker:
  assumes "counts_ok env s" "published_ok env s"
    and "\<forall>i<length (lecture_ids env). reaches_update (item_outcome env i)"
    and "test_is_safe env"
  shows "published_ok env (worker_step env s)"
proof (cases "pc s")
  case Process
  with assms(1) have i: "idx s < length (lecture_ids env)"
    by (simp add: counts_ok_def Let_def)
  with assms(3) have "reaches_update (item_outcome env (idx s))" by simp
  with Process assms(2) safe_item [OF assms(4) i] show ?thesis
    by (cases "item_outcome env (idx s)")
       (auto simp: published_ok_def worker_step_def process_item_def reaches_update_def Let_def)
qed (use assms(1,2) in \<open>auto simp: counts_ok_def published_ok_def worker_step_def stop_now_def
        Let_def split: option.splits\<close>)

lemma published_ok_step:
  assumes "counts_ok env s" "published_ok env s"
    and "\<forall>i<length (lecture_ids env). reaches_update (item_outcome env i)"
    and "ev \<noteq> Cancel" and "test_is_safe env"
  shows "published_ok env (sys_step env s ev)"
proof (cases ev)
  case Work
  then show ?thesis using published_ok_worker [OF assms(1-3,5)] by (simp add: sys_step_def)
next
  case Pause
  then show ?thesis using assms(2)
    by (cases "pc s"; auto simp: sys_step_def published_ok_def pause_job_def Let_def)
next
  case Resume
  then show ?thesis using assms(2)
    by (cases "pc s"; auto simp: sys_step_def published_ok_def resume_job_def Let_def)
next
  case Cancel
  with assms(4) show ?thesis by simp
qed

lemma published_ok_run:
  assumes "\<forall>i<length (lecture_ids env). reaches_update (item_outcome env i)"
    and "test_is_safe env"
  shows "counts_ok env s \<Longrightarrow> published_ok env s \<Longrightarrow> Cancel \<notin> set evs \<Longrightarrow>
           published_ok env (run env evs s)"
proof (induction evs arbitrary: s)
  case Nil
  then show ?case by simp
next
  case (Cons ev evs)
  from Cons.prems have "ev \<noteq> Cancel" "Cancel \<notin> set evs" by auto
  then show ?case
    using Cons.IH [of "sys_step env s ev"] Cons.prems(1,2) assms
    by (simp add: counts_ok_step published_ok_step)
qed

lemma published_ok_total:
  "counts_ok env s \<Longrightarrow> published_ok env s \<Longrightarrow> status (task s) = ''completed'' \<Longrightarrow>
     completed (task s) + failed (task s) = total (task s)"
  by (cases "pc s") (auto simp: counts_ok_def published_ok_def Let_def)

subsection \<open>While the job is paused or stopped\<close>

lemma flags_step:
  "paused (task s) \<or> stopped (task s) \<Longrightarrow> ev \<noteq> Resume \<Longrightarrow>
     paused (task (sys_step env s ev)) \<or> stopped (task (sys_step env s ev))"
  by (cases ev; cases "pc s"; cases "item_outcome env (idx s)")
     (auto simp: sys_step_def worker_step_def process_item_def skip_update_def stop_now_def
        pause_job_def cancel_job_def Let_def split: option.splits)

lemma bound_step:
  "paused (task s) \<or> stopped (task s) \<Longrightarrow> ev \<noteq> Resume \<Longrightarrow>
     items_bound (sys_step env s ev) \<le> items_bound s"
  by (cases ev; cases "pc s"; cases "item_outcome env (idx s)")
     (auto simp: sys_step_def worker_step_def process_item_def skip_update_def stop_now_def
        pause_job_def cancel_job_def items_bound_def items_begun_def next_item_due_def
        Let_def split: option.splits)

lemma bound_run:
  "paused (task s) \<or> stopped (task s) \<Longrightarrow> Resume \<notin> set evs \<Longrightarrow>
     items_bound (run env evs s) \<le> items_bound s"
proof (induction evs arbitrary: s)
  case Nil
  then show ?case by simp
next
  case (Cons ev evs)
  from Cons.prems have ne: "ev \<noteq> Resume" "Resume \<notin> set evs" by auto
  from Cons.IH [OF flags_step [OF Cons.prems(1) ne(1)] ne(2), of env]
       bound_step [OF Cons.prems(1) ne(1), of env]
  show ?case by simp
qed

lemma behind_start: "behind (start env)"
  by (simp add: behind_def start_def new_job_def)

lemma behind_step: "behind s \<Longrightarrow> behind (sys_step env s ev)"
  by (cases ev; cases "pc s"; cases "item_outcome env (idx s)")
     (auto simp: sys_step_def worker_step_def process_item_def skip_update_def stop_now_def
        pause_job_def resume_job_def cancel_job_def behind_def
        Let_def split: option.splits)

lemma behind_run: "behind s \<Longrightarrow> behind (run env evs s)"
  by (induction evs arbitrary: s) (simp_all add: behind_step)

lemma behind_reachable: "reachable env s \<Longrightarrow> behind s"
  by (auto simp: reachable_def behind_run behind_start)

lemma completed_mono_step:
  "behind s \<Longrightarrow> completed (task s) \<le> completed (task (sys_step env s ev))"
  by (cases ev; cases "pc s"; cases "item_outcome env (idx s)")
     (auto simp: sys_step_def worker_step_def process_item_def skip_update_def stop_now_def
        pause_job_def resume_job_def cancel_job_def behind_def
        Let_def split: option.splits)

lemma completed_mono_run:
  "behind s \<Longrightarrow> completed (task s) \<le> completed (task (run env evs s))"
proof (induction evs arbitrary: s)
  case Nil
  then show ?case by simp
next
  case (Cons ev evs)
  from Cons.IH [OF behind_step [OF Cons.prems, of env ev]] completed_mono_step [OF Cons.prems, of env ev]
  show ?case by simp
qed

subsection \<open>Concrete runs\<close>

lemma work_0 [simp]: "work env 0 s = s"
  by (simp add: work_def)

lemma work_Suc: "work env (Suc k) s = work env k (worker_step env s)"
  by (simp add: work_def sys_step_def)

lemma work_numeral: "work env (numeral v) s = work env (pred_numeral v) (worker_step env s)"
  by (simp add: numeral_eq_Suc work_Suc)

lemma decimal_digit:
  "decimal 1 = ''1''" "decimal 2 = ''2''"
  "decimal (Suc 0) = ''1''" "decimal (Suc (Suc 0)) = ''2''"
  by (simp_all add: decimal.simps)

lemma percent_facts:
  "(200::nat) div Suc (Suc 0) = 100" "(100::nat) div Suc (Suc 0) = 50"
  by (simp_all add: numeral_2_eq_2 [symmetric])

lemmas job_eval = percent_facts work_numeral work_Suc worker_step_def process_item_def skip_update_def stop_now_def
  start_def new_job_def demo_env_def guard_env_def missing_env_def null_env_def truth_def
  in_raises_def sys_step_def pause_job_def
  resume_job_def cancel_job_def say_def Let_def

lemma demo_done:
  "work demo_env 15 (start demo_env) =
     \<lparr>task = \<lparr>status = ''completed'', progress = 100, total = 2, completed = 1, failed = 1,
        messages = [''Extracting video URL for: Intro'', ''Downloading: Intro'',
          ''Failed to download: Intro'', ''Extracting video URL for: Data'', ''Downloading: Data'',
          ''Downloaded: Data'', ''All downloads completed!''],
        paused = False, stopped = False, current_lecture_index = 1, items = []\<rparr>,
      pc = Done, idx = 2, l_completed = 1, l_failed = 1\<rparr>"
  by (simp add: job_eval)

lemma guard_error:
  "work guard_env 1 (start guard_env) =
     \<lparr>task = \<lparr>status = ''error'', progress = 0, total = 1, completed = 0, failed = 0,
        messages = [''Transcription and analysis are not available in web version. Use local version for these features.''],
        paused = False, stopped = False, current_lecture_index = 0, items = []\<rparr>,
      pc = Done, idx = 0, l_completed = 0, l_failed = 0\<rparr>"
  by (simp add: job_eval)

lemma cancelled_run:
  "map (\<lambda>evs. status (task (run demo_env evs (start demo_env))))
     [[Work], [Work, Cancel], [Work, Cancel, Work], [Work, Cancel, Work, Work]]
   = [''running'', ''cancelled'', ''stopped'', ''completed'']"
  by (simp add: job_eval)

lemma missing_done:
  "status (task (work missing_env 7 (start missing_env))) = ''completed''"
  "completed (task (work missing_env 7 (start missing_env))) = 0"
  "failed (task (work missing_env 7 (start missing_env))) = 0"
  "total (task (work missing_env 7 (start missing_env))) = 1"
  "l_failed (work missing_env 7 (start missing_env)) = 1"
  by (simp_all add: job_eval)


lemma null_done:
  "work null_env 13 (start null_env) =
     \<lparr>task = \<lparr>status = ''completed'', progress = 100, total = 2, completed = 1, failed = 2,
        messages = [''Extracting video URL for: Intro'', ''Downloading: Intro'',
          ''Downloaded: Intro'',
          ''Error processing lecture L1: argument of type '' @ quoted ''NoneType''
            @ '' is not iterable'',
          ''Extracting video URL for: Data'', ''Downloading: Data'',
          ''Failed to download: Data'', ''All downloads completed!''],
        paused = False, stopped = False, current_lecture_index = 1, items = []\<rparr>,
      pc = Done, idx = 2, l_completed = 1, l_failed = 2\<rparr>"
  by (simp add: job_eval)

lemma null_published:
  "work null_env 11 (start null_env) =
     \<lparr>task = \<lparr>status = ''running'', progress = 100, total = 2, completed = 1, failed = 2,
        messages = [''Extracting video URL for: Intro'', ''Downloading: Intro'',
          ''Downloaded: Intro'',
          ''Error processing lecture L1: argument of type '' @ quoted ''NoneType''
            @ '' is not iterable'',
          ''Extracting video URL for: Data'', ''Downloading: Data'',
          ''Failed to download: Data''],
        paused = False, stopped = False, current_lecture_index = 1, items = []\<rparr>,
      pc = CheckStopped, idx = 2, l_completed = 1, l_failed = 2\<rparr>"
  by (simp add: job_eval)

subsection \<open>The registry: a thread alone on its record\<close>

lemma app_run_Nil [simp]: "app_run [] a = a"
  by (simp add: app_run_def)

lemma app_run_snoc [simp]: "app_run (acts @ [act]) a = app_step (app_run acts a) act"
  by (simp add: app_run_def)

lemma on_task_other:
  "i \<noteq> task_id \<Longrightarrow> snd (on_task f task_status task_id) i = task_status i"
  by (simp add: on_task_def split: option.splits)

lemma on_task_same:
  "task_status task_id = Some j \<Longrightarrow>
     snd (on_task f task_status task_id) task_id = Some (snd (f j))"
  by (simp add: on_task_def)

lemma threads_step:
  assumes "k < length (app_threads a)"
  shows "k < length (app_threads (app_step a act))
     \<and> th_id (app_threads (app_step a act) ! k) = th_id (app_threads a ! k)
     \<and> th_env (app_threads (app_step a act) ! k) = th_env (app_threads a ! k)"
proof (cases act)
  case (Thread k')
  then show ?thesis using assms
    by (cases "k' = k")
       (auto simp: app_step_def thread_step_def Let_def split: option.splits)
next
  case (Download sec env)
  then show ?thesis using assms
    by (cases "lecture_ids env = []")
       (simp_all add: app_step_def download_lectures_def Let_def nth_append)
qed (use assms in \<open>simp_all add: app_step_def\<close>)

lemma registered_on_task:
  "registered a \<Longrightarrow> registered (a\<lparr>app_jobs := snd (on_task f (app_jobs a) i)\<rparr>)"
  by (auto simp: registered_def list_all_iff on_task_def split: option.splits)

lemma registered_step: "registered a \<Longrightarrow> registered (app_step a act)"
proof (cases act)
  case (Thread k')
  assume r: "registered a"
  show ?thesis
  proof (cases "k' < length (app_threads a)")
    case True
    with r have "app_jobs a (th_id (app_threads a ! k')) \<noteq> None"
      by (simp add: registered_def list_all_length)
    then obtain j where j: "app_jobs a (th_id (app_threads a ! k')) = Some j" by blast
    show ?thesis using r True unfolding Thread
      by (auto simp: registered_def list_all_length app_step_def thread_step_def j Let_def
            nth_list_update)
  next
    case False
    with r show ?thesis unfolding Thread by (simp add: app_step_def)
  qed
next
  case (Download sec env)
  assume "registered a"
  then show ?thesis unfolding Download
    by (auto simp: registered_def list_all_iff app_step_def download_lectures_def Let_def)
qed (simp_all add: app_step_def pause_task_def resume_task_def cancel_task_def
       registered_on_task)

lemma registered_run: "registered (app_run acts app_init)"
  by (induction acts rule: rev_induct)
     (simp_all add: registered_step, simp add: registered_def app_init_def)

lemma alone_back:
  assumes "alone (app_step a act) k" and "k < length (app_threads a)"
  shows "alone a k"
  unfolding alone_def list_all_iff
proof (intro conjI ballI)
  show "k < length (app_threads a)" by (rule assms(2))
next
  fix k' assume "k' \<in> set [0..<length (app_threads a)]"
  then have k': "k' < length (app_threads a)" by simp
  from threads_step [OF k', of act] threads_step [OF assms(2), of act] assms(1)
  show "k' = k \<or> th_id (app_threads a ! k') \<noteq> th_id (app_threads a ! k)"
    by (auto simp: alone_def list_all_iff)
qed

lemma view_of_step:
  "view (task s) (t\<lparr>th_pc := pc s, th_idx := idx s, th_completed := l_completed s,
       th_failed := l_failed s\<rparr>) = s"
  by (simp add: view_def)

lemma alone_step:
  assumes r: "registered a" and al: "alone (app_step a act) k"
    and k: "k < length (app_threads a)"
  shows "job_view (app_step a act) k = job_view a k
     \<or> (\<exists>ev. job_view (app_step a act) k = sys_step (th_env (app_threads a ! k)) (job_view a k) ev)"
proof -
  from r k obtain j where j: "app_jobs a (th_id (app_threads a ! k)) = Some j"
    by (auto simp: registered_def list_all_length)
  show ?thesis
  proof (cases act)
    case (Download sec env)
    show ?thesis
    proof (cases "lecture_ids env = []")
      case True
      then show ?thesis unfolding Download by (simp add: app_step_def download_lectures_def)
    next
      case False
      from al have "th_id (app_threads (app_step a act) ! length (app_threads a))
          \<noteq> th_id (app_threads (app_step a act) ! k)"
        using k False unfolding Download
        by (auto simp: alone_def list_all_iff app_step_def download_lectures_def Let_def)
      then have "''download_'' @ decimal sec \<noteq> th_id (app_threads a ! k)"
        using k False unfolding Download
        by (simp add: app_step_def download_lectures_def Let_def nth_append)
      then show ?thesis using k False unfolding Download
        by (simp add: job_view_def app_step_def download_lectures_def Let_def nth_append)
    qed
  next
    case (PauseTask i)
    show ?thesis
    proof (cases "i = th_id (app_threads a ! k)")
      case True
      then have "job_view (app_step a act) k
          = sys_step (th_env (app_threads a ! k)) (job_view a k) Pause"
        unfolding PauseTask
        by (simp add: job_view_def app_step_def pause_task_def on_task_same [where task_status = "app_jobs a", OF j] j sys_step_def
              view_def)
      then show ?thesis by blast
    next
      case False
      then show ?thesis unfolding PauseTask
        by (simp add: job_view_def app_step_def pause_task_def on_task_other)
    qed
  next
    case (ResumeTask i)
    show ?thesis
    proof (cases "i = th_id (app_threads a ! k)")
      case True
      then have "job_view (app_step a act) k
          = sys_step (th_env (app_threads a ! k)) (job_view a k) Resume"
        unfolding ResumeTask
        by (simp add: job_view_def app_step_def resume_task_def on_task_same [where task_status = "app_jobs a", OF j] j
              sys_step_def view_def)
      then show ?thesis by blast
    next
      case False
      then show ?thesis unfolding ResumeTask
        by (simp add: job_view_def app_step_def resume_task_def on_task_other)
    qed
  next
    case (CancelTask i)
    show ?thesis
    proof (cases "i = th_id (app_threads a ! k)")
      case True
      then have "job_view (app_step a act) k
          = sys_step (th_env (app_threads a ! k)) (job_view a k) Cancel"
        unfolding CancelTask
        by (simp add: job_view_def app_step_def cancel_task_def on_task_same [where task_status = "app_jobs a", OF j] j
              sys_step_def view_def)
      then show ?thesis by blast
    next
      case False
      then show ?thesis unfolding CancelTask
        by (simp add: job_view_def app_step_def cancel_task_def on_task_other)
    qed
  next
    case (Thread k')
    show ?thesis
    proof (cases "k' < length (app_threads a)")
      case False
      then show ?thesis unfolding Thread by (simp add: app_step_def)
    next
      case True
      show ?thesis
      proof (cases "k' = k")
        case same: True
        have "job_view (app_step a act) k
            = sys_step (th_env (app_threads a ! k)) (job_view a k) Work"
          using k unfolding Thread same
          by (simp add: job_view_def app_step_def thread_step_def j Let_def sys_step_def
                view_of_step)
        then show ?thesis by blast
      next
        case other: False
        from r True obtain j' where j': "app_jobs a (th_id (app_threads a ! k')) = Some j'"
          by (auto simp: registered_def list_all_length)
        from al True other threads_step [OF True, of act] threads_step [OF k, of act]
        have ne: "th_id (app_threads a ! k') \<noteq> th_id (app_threads a ! k)"
          by (auto simp: alone_def list_all_iff)
        show ?thesis using k True other ne unfolding Thread
          by (simp add: job_view_def app_step_def thread_step_def j' Let_def)
      qed
    qed
  qed
qed

lemma new_thread:
  assumes "k < length (app_threads (app_step a act))" and "\<not> k < length (app_threads a)"
  shows "\<exists>sec env. act = Download sec env \<and> lecture_ids env \<noteq> []
     \<and> th_env (app_threads (app_step a act) ! k) = env
     \<and> job_view (app_step a act) k = start env"
proof (cases act)
  case (Download sec env)
  with assms show ?thesis
    by (cases "lecture_ids env = []")
       (auto simp: app_step_def download_lectures_def Let_def job_view_def view_def start_def
          nth_append less_Suc_eq)
next
  case (Thread k')
  with assms show ?thesis
    by (auto simp: app_step_def thread_step_def Let_def split: option.splits if_splits)
qed (use assms in \<open>auto simp: app_step_def\<close>)

text \<open>
  The record of a thread that is alone on its id, with the variables of the thread, is a
  state that the job of \<open>start\<close> reaches by steps of its worker and control requests:
  what holds of all such states holds of the records of the registry whose id one
  request only has used.
\<close>

lemma alone_thread_reachable:
  "alone (app_run acts app_init) k \<Longrightarrow>
     reachable (th_env (app_threads (app_run acts app_init) ! k)) (job_view (app_run acts app_init) k)"
proof (induction acts arbitrary: k rule: rev_induct)
  case Nil
  then show ?case by (simp add: alone_def app_init_def)
next
  case (snoc act acts)
  let ?a = "app_run acts app_init"
  from snoc.prems have al: "alone (app_step ?a act) k" by simp
  then have kn: "k < length (app_threads (app_step ?a act))" by (simp add: alone_def)
  show ?case
  proof (cases "k < length (app_threads ?a)")
    case True
    from snoc.IH [OF alone_back [OF al True]]
    have re: "reachable (th_env (app_threads ?a ! k)) (job_view ?a k)" .
    from threads_step [OF True, of act]
    have env: "th_env (app_threads (app_step ?a act) ! k) = th_env (app_threads ?a ! k)" by simp
    from alone_step [OF registered_run al True]
    have "reachable (th_env (app_threads ?a ! k)) (job_view (app_step ?a act) k)"
    proof
      assume "job_view (app_step ?a act) k = job_view ?a k"
      with re show ?thesis by simp
    next
      assume "\<exists>ev. job_view (app_step ?a act) k
          = sys_step (th_env (app_threads ?a ! k)) (job_view ?a k) ev"
      then obtain ev where "job_view (app_step ?a act) k
          = sys_step (th_env (app_threads ?a ! k)) (job_view ?a k) ev" by blast
      with reachable_run [OF re, of "[ev]"] show ?thesis by simp
    qed
    with env show ?thesis by simp
  next
    case False
    from new_thread [OF kn False] obtain sec env where
      "th_env (app_threads (app_step ?a act) ! k) = env"
      "job_view (app_step ?a act) k = start env" by blast
    moreover have "reachable env (start env)"
      unfolding reachable_def by (rule exI [of _ "[]"]) simp
    ultimately show ?thesis by simp
  qed
qed

text \<open>Two requests of the same second: both threads work on the one record that the
  second request has made, with the total of the second request.\<close>

lemma same_second_one_record:
  assumes "lecture_ids env1 \<noteq> []" "lecture_ids env2 \<noteq> []"
  shows "map th_id (app_threads (app_run [Download sec env1, Download sec env2] app_init))
       = [''download_'' @ decimal sec, ''download_'' @ decimal sec]
     \<and> map th_env (app_threads (app_run [Download sec env1, Download sec env2] app_init))
       = [env1, env2]
     \<and> app_jobs (app_run [Download sec env1, Download sec env2] app_init)
          (''download_'' @ decimal sec) = Some (new_job (length (lecture_ids env2)))
     \<and> \<not> alone (app_run [Download sec env1, Download sec env2] app_init) 0"
  using assms
  by (simp add: app_run_def app_step_def download_lectures_def app_init_def alone_def Let_def
        del: decimal.simps)

subsection \<open>Claim C1: the counters and the total\<close>

lemma work_reachable: "reachable env (work env k (start env))"
  by (auto simp: reachable_def work_def)

text \<open>
  Where the code keeps the counts within the total: in a batch download whose id no
  other request shares and in which the test of line 670 does not raise, as it is when
  \<open>transcribe_ids\<close> is a list. Then at every status read, whatever the worker and the
  pause, resume and cancel requests have done so far, completed plus failed is at most
  the total; a job in the state \<open>error\<close> has counted nothing; and a job that nobody
  cancelled and whose items all reached their progress update has completed plus
  failed equal to the total once its state is \<open>completed\<close>.
\<close>

lemma safe_batch_counts_within_total:
  assumes "test_is_safe env" and "reachable env s"
  shows "completed (task s) + failed (task s) \<le> total (task s)
     \<and> (status (task s) = ''error'' \<longrightarrow> completed (task s) + failed (task s) = 0)
     \<and> (\<forall>evs. s = run env evs (start env) \<and> Cancel \<notin> set evs
            \<and> (\<forall>i<length (lecture_ids env). reaches_update (item_outcome env i))
            \<and> status (task s) = ''completed''
          \<longrightarrow> completed (task s) + failed (task s) = total (task s))"
proof -
  have c: "counts_ok env s" using assms by (rule counts_ok_reachable)
  have a: "completed (task s) + failed (task s) \<le> total (task s)"
    using c by (rule counts_ok_le)
  have b: "completed (task s) + failed (task s) = 0" if "status (task s) = ''error''"
    using counts_ok_error [OF c that] by simp
  have d: "completed (task s) + failed (task s) = total (task s)"
    if "s = run env evs (start env)" "Cancel \<notin> set evs"
      "\<forall>i<length (lecture_ids env). reaches_update (item_outcome env i)"
      "status (task s) = ''completed''" for evs
  proof -
    have "published_ok env (run env evs (start env))"
      using published_ok_run [OF that(3) assms(1) counts_ok_start published_ok_start that(2)] .
    then have "published_ok env s" using that(1) by simp
    from published_ok_total [OF c this that(4)] show ?thesis .
  qed
  show ?thesis using a b d by blast
qed

text \<open>The same for the records of the registry: the thread that is alone on its id.\<close>

lemma alone_counts_within_total:
  assumes "alone (app_run acts app_init) k"
    and "test_is_safe (th_env (app_threads (app_run acts app_init) ! k))"
  shows "completed (task (job_view (app_run acts app_init) k))
       + failed (task (job_view (app_run acts app_init) k))
     \<le> total (task (job_view (app_run acts app_init) k))"
  using safe_batch_counts_within_total [OF assms(2) alone_thread_reachable [OF assms(1)]]
  by simp

text \<open>
  Other ways in which the counts of a batch download miss the total. The guard of lines
  600 to 603 ends the job of \<open>guard_env\<close> in the state \<open>error\<close> with nothing counted of a
  total of one, where the handlers of \<open>download_single_task\<close> set \<open>failed\<close> with the state
  \<open>error\<close>. An item that is skipped by \<open>continue\<close> or by the handler of the inner \<open>try\<close> is
  counted by the worker but not published: the job of \<open>missing_env\<close> ends \<open>completed\<close> with
  nothing completed and nothing failed of one item.
\<close>

lemma error_state_below_total:
  "terminal (status (task (work guard_env 1 (start guard_env))))
   \<and> \<not> is_stopped (status (task (work guard_env 1 (start guard_env))))
   \<and> completed (task (work guard_env 1 (start guard_env)))
       + failed (task (work guard_env 1 (start guard_env)))
       < total (task (work guard_env 1 (start guard_env)))"
  unfolding guard_error by (simp add: terminal_def is_stopped_def)

lemma skipped_item_not_published:
  "status (task (work missing_env 7 (start missing_env))) = ''completed''
   \<and> completed (task (work missing_env 7 (start missing_env)))
       + failed (task (work missing_env 7 (start missing_env)))
       < total (task (work missing_env 7 (start missing_env)))"
  by (simp add: missing_done)

lemma folder_done:
  "download_materials_task folder_env new_materials_job =
     \<lparr>status = ''completed'', progress = 100, total = 1, completed = 2, failed = 0,
       messages = [''Fetching course content...'',
         ''Found 1 items to process (folders will be expanded)'', ''Parsing folder: Slides'',
         ''Downloading from folder: a.pdf'', ''Downloading from folder: b.pdf'',
         ''Download materials task completed''],
       paused = False, stopped = False, current_lecture_index = 0, items = []\<rparr>"
  by (simp add: download_materials_task_def folder_env_def new_materials_job_def
        process_section_def process_material_def next_item_def save_description_def
        count_file_def say_def decimal_digit percent_facts Let_def)

text \<open>
  Claim C1 says that completed plus failed is at most the total after every status read
  and equals it in a terminal state other than Stopped. The code at two inputs. In the
  batch download of \<open>null_env\<close>, whose request has \<open>"transcribe_ids": null\<close>, the first
  lecture is downloaded and counted as completed, the test of line 670 raises and the
  handler counts it as failed too; after the update of the second lecture, whose download
  fails, the running job shows one completed and two failed of a total of two, and so
  it ends \<open>completed\<close>. In the materials download of \<open>folder_env\<close> the total counts the one
  folder and the worker counts its two files: the job ends \<open>completed\<close> with two completed
  of a total of one.
\<close>

theorem counts_exceed_total:
  "status (task (work null_env 11 (start null_env))) = ''running''
   \<and> total (task (work null_env 11 (start null_env))) = 2
   \<and> completed (task (work null_env 11 (start null_env))) = 1
   \<and> failed (task (work null_env 11 (start null_env))) = 2
   \<and> status (task (work null_env 13 (start null_env))) = ''completed''
   \<and> total (task (work null_env 13 (start null_env)))
       < completed (task (work null_env 13 (start null_env)))
         + failed (task (work null_env 13 (start null_env)))
   \<and> status (download_materials_task folder_env new_materials_job) = ''completed''
   \<and> total (download_materials_task folder_env new_materials_job) = 1
   \<and> completed (download_materials_task folder_env new_materials_job) = 2
   \<and> failed (download_materials_task folder_env new_materials_job) = 0"
  by (simp only: null_published null_done folder_done) simp

subsection \<open>Claim C9: pause and resume\<close>

text \<open>
  Claim C9. A pause or resume request succeeds only while the job's state is
  \<open>running\<close>: pause then sets the pause flag and resume clears it (each logs a
  message). Against a job in any other state the request changes nothing and is answered
  with the error \<open>Task is not running\<close> (status 400), against an unknown id with
  \<open>Task not found\<close> (status 404). Pausing does not change the state, so a paused job
  still counts as running and the resume that follows is accepted.
\<close>

theorem pause_resume_only_while_running:
  "(task_status task_id = Some j \<and> status j = ''running'' \<longrightarrow>
      pause_task task_status task_id =
        (Reply True ''Task paused'' 200,
         task_status(task_id \<mapsto> j\<lparr>paused := True,
           messages := messages j @ [''Task paused by user'']\<rparr>))
      \<and> resume_task task_status task_id =
        (Reply True ''Task resumed'' 200,
         task_status(task_id \<mapsto> j\<lparr>paused := False,
           messages := messages j @ [''Task resumed by user'']\<rparr>)))
   \<and> (task_status task_id = Some j \<and> status j \<noteq> ''running'' \<longrightarrow>
      pause_task task_status task_id = (Reply False ''Task is not running'' 400, task_status)
      \<and> resume_task task_status task_id = (Reply False ''Task is not running'' 400, task_status))
   \<and> (task_status task_id = None \<longrightarrow>
      pause_task task_status task_id = (Reply False ''Task not found'' 404, task_status)
      \<and> resume_task task_status task_id = (Reply False ''Task not found'' 404, task_status))
   \<and> (status j = ''running'' \<longrightarrow>
      status (snd (pause_job j)) = ''running'' \<and> paused (snd (pause_job j))
      \<and> fst (resume_job (snd (pause_job j))) = Reply True ''Task resumed'' 200
      \<and> \<not> paused (snd (resume_job (snd (pause_job j)))))"
proof -
  have a: "task_status(task_id \<mapsto> j) = task_status" if "task_status task_id = Some j"
    using that by (simp add: fun_upd_idem)
  show ?thesis
    by (auto simp: pause_task_def resume_task_def on_task_def pause_job_def resume_job_def
          say_def a)
qed

text \<open>The theorem at a registry with one new job.\<close>

theorem pause_resume_only_while_running_witness:
  "(Map.empty(''download_1'' \<mapsto> new_job 3)) ''download_1'' = Some (new_job 3)
   \<and> status (new_job 3) = ''running''
   \<and> pause_task (Map.empty(''download_1'' \<mapsto> new_job 3)) ''download_1'' =
        (Reply True ''Task paused'' 200,
         (Map.empty(''download_1'' \<mapsto> new_job 3))(''download_1'' \<mapsto> (new_job 3)\<lparr>paused := True,
           messages := messages (new_job 3) @ [''Task paused by user'']\<rparr>))
   \<and> fst (resume_job (snd (pause_job (new_job 3)))) = Reply True ''Task resumed'' 200"
proof -
  have a: "(Map.empty(''download_1'' \<mapsto> new_job 3)) ''download_1'' = Some (new_job 3)" by simp
  have b: "status (new_job 3) = ''running''" by (simp add: new_job_def)
  from pause_resume_only_while_running
    [of "Map.empty(''download_1'' \<mapsto> new_job 3)" "''download_1''" "new_job 3"]
  show ?thesis using a b by blast
qed


subsection \<open>Claim C2: terminal states and cancel\<close>

text \<open>
  Claim C2 says that a terminal state never changes again and that cancel is accepted
  only in a state that is not terminal. The code at two inputs: in the job \<open>demo_env\<close>,
  run to its end, the state is \<open>completed\<close>, and \<open>cancel_task\<close> still answers with
  success and writes \<open>cancelled\<close>; and when the job is cancelled after the first step of
  the worker, the state goes from \<open>cancelled\<close> to \<open>stopped\<close> at the worker's test of the
  stop flag and, after the \<open>break\<close>, to \<open>completed\<close> at line 754.
\<close>

theorem cancel_accepted_after_completion:
  "status (task (work demo_env 15 (start demo_env))) = ''completed''
   \<and> cancel_task (Map.empty(''download_1'' \<mapsto> task (work demo_env 15 (start demo_env))))
        ''download_1''
      = (Reply True ''Task cancelled'' 200,
         Map.empty(''download_1'' \<mapsto>
           (task (work demo_env 15 (start demo_env)))
             \<lparr>stopped := True, paused := False, status := ''cancelled'',
              messages := messages (task (work demo_env 15 (start demo_env)))
                @ [''Task cancelled by user'']\<rparr>))
   \<and> map (\<lambda>evs. status (task (run demo_env evs (start demo_env))))
        [[Work], [Work, Cancel], [Work, Cancel, Work], [Work, Cancel, Work, Work]]
      = [''running'', ''cancelled'', ''stopped'', ''completed'']"
proof -
  have a: "status (task (work demo_env 15 (start demo_env))) = ''completed''"
    by (simp add: demo_done)
  have b: "cancel_task (Map.empty(''download_1'' \<mapsto> j)) ''download_1''
      = (Reply True ''Task cancelled'' 200,
         Map.empty(''download_1'' \<mapsto> j\<lparr>stopped := True, paused := False,
            status := ''cancelled'',
            messages := messages j @ [''Task cancelled by user'']\<rparr>))" for j
    by (simp add: cancel_task_def on_task_def cancel_job_def say_def)
  show ?thesis using a b cancelled_run by blast
qed


subsection \<open>The flags of a batch download\<close>

lemma say_flags:
  "say m (j\<lparr>paused := p, stopped := q\<rparr>) = (say m j)\<lparr>paused := p, stopped := q\<rparr>"
  by (simp add: say_def)

lemma fold_say_flags:
  "fold say ms (j\<lparr>paused := p, stopped := q\<rparr>) = (fold say ms j)\<lparr>paused := p, stopped := q\<rparr>"
  by (induction ms arbitrary: j) (simp_all add: say_flags)

lemma process_ignores_flags:
  "process_item env (s\<lparr>task := (task s)\<lparr>paused := p, stopped := q\<rparr>\<rparr>) =
     (process_item env s)\<lparr>task := (task (process_item env s))\<lparr>paused := p, stopped := q\<rparr>\<rparr>"
proof -
  have a: "(task s)\<lparr>paused := p, stopped := q, current_lecture_index := i\<rparr>
      = (task s)\<lparr>current_lecture_index := i, paused := p, stopped := q\<rparr>" for i
    by simp
  show ?thesis
    unfolding process_item_def Let_def skip_update_def
    by (cases "item_outcome env (idx s)";
        cases "in_raises (transcribe_ids env) (lecture_ids env ! idx s)")
       (simp_all only: sys.simps outcome.case option.case a fold_say_flags, simp_all)
qed

lemma stage_ignores_flags:
  assumes "pc s = Process \<or> pc s = SetCompleted \<or> pc s = SetFailed"
  shows "worker_step env (s\<lparr>task := (task s)\<lparr>paused := p, stopped := q\<rparr>\<rparr>) =
     (worker_step env s)\<lparr>task := (task (worker_step env s))\<lparr>paused := p, stopped := q\<rparr>\<rparr>"
  using assms
proof (elim disjE)
  assume "pc s = Process"
  then show ?thesis by (simp add: worker_step_def process_ignores_flags)
next
  assume "pc s = SetCompleted"
  then show ?thesis by (simp add: worker_step_def)
next
  assume "pc s = SetFailed"
  then show ?thesis by (simp add: worker_step_def)
qed

lemma process_entered_after_check:
  "pc (worker_step env s) = Process \<Longrightarrow> pc s \<noteq> Process \<Longrightarrow>
     pc s = CheckAgain \<and> \<not> stopped (task s)"
  by (cases "pc s")
     (auto simp: worker_step_def stop_now_def split: option.splits if_splits)

lemma paused_worker_waits:
  "pc s = WaitPaused \<Longrightarrow> paused (task s) \<Longrightarrow> \<not> stopped (task s) \<Longrightarrow> worker_step env s = s"
  by (simp add: worker_step_def)

lemma cancel_keeps_counts:
  "completed (task (sys_step env s Cancel)) = completed (task s)"
  "failed (task (sys_step env s Cancel)) = failed (task s)"
  by (simp_all add: sys_step_def cancel_job_def)

lemma stopped_worker_step:
  "stopped (task s) \<Longrightarrow>
     stopped (task (worker_step env s)) \<and>
     steps_to_end (pc (worker_step env s)) \<le> steps_to_end (pc s) - 1"
  by (cases "pc s"; cases "item_outcome env (idx s)")
     (auto simp: worker_step_def process_item_def skip_update_def stop_now_def steps_to_end_def
        Let_def split: option.splits)

lemma stopped_work:
  "stopped (task s) \<Longrightarrow>
     stopped (task (work env k s)) \<and> steps_to_end (pc (work env k s)) \<le> steps_to_end (pc s) - k"
proof (induction k arbitrary: s)
  case 0
  then show ?case by simp
next
  case (Suc k)
  from stopped_worker_step [OF Suc.prems, of env]
  have a: "stopped (task (worker_step env s))"
    and b: "steps_to_end (pc (worker_step env s)) \<le> steps_to_end (pc s) - 1" by simp_all
  from Suc.IH [OF a]
  have c: "stopped (task (work env k (worker_step env s)))"
    and d: "steps_to_end (pc (work env k (worker_step env s)))
              \<le> steps_to_end (pc (worker_step env s)) - k" by simp_all
  from d b have "steps_to_end (pc (work env k (worker_step env s))) \<le> steps_to_end (pc s) - Suc k"
    by arith
  with c show ?case by (simp add: work_Suc)
qed

lemma steps_to_end_le_5: "steps_to_end p \<le> 5"
  by (cases p) (simp_all add: steps_to_end_def)

lemma steps_to_end_0: "steps_to_end p = 0 \<Longrightarrow> p = Done"
  by (cases p) (simp_all add: steps_to_end_def)

lemma stopped_worker_ends: "stopped (task s) \<Longrightarrow> pc (work env 5 s) = Done"
proof -
  assume "stopped (task s)"
  from stopped_work [OF this, of env 5] steps_to_end_le_5 [of "pc s"]
  have "steps_to_end (pc (work env 5 s)) = 0" by simp
  then show ?thesis by (rule steps_to_end_0)
qed

text \<open>
  The worker of a batch download consults the pause and stop flags only between items.
  The step that processes an item and the writes of its progress update do not read the
  flags: changing the flags before such a step changes nothing but the flags after it.
  The processing of an item begins only from the second test of \<open>stopped\<close>, with the flag
  unset. A worker in the waiting loop of a paused job that is not stopped stays where it
  is and changes nothing. A cancel request leaves the completed count as it is, and no
  run of the job ever decreases it. From a state in which the job is paused or stopped,
  as long as no resume request is made, the worker begins at most one more item; and once
  the stop flag is set, five steps of the worker bring it to its end.
\<close>

lemma batch_worker_flags_between_items:
  assumes "reachable env s"
  shows "(pc s = Process \<or> pc s = SetCompleted \<or> pc s = SetFailed \<longrightarrow>
        worker_step env (s\<lparr>task := (task s)\<lparr>paused := p, stopped := q\<rparr>\<rparr>) =
          (worker_step env s)\<lparr>task := (task (worker_step env s))\<lparr>paused := p, stopped := q\<rparr>\<rparr>)
     \<and> (pc (worker_step env s) = Process \<and> pc s \<noteq> Process \<longrightarrow>
          pc s = CheckAgain \<and> \<not> stopped (task s))
     \<and> (pc s = WaitPaused \<and> paused (task s) \<and> \<not> stopped (task s) \<longrightarrow> worker_step env s = s)
     \<and> completed (task (sys_step env s Cancel)) = completed (task s)
     \<and> completed (task s) \<le> completed (task (run env evs s))
     \<and> ((paused (task s) \<or> stopped (task s)) \<and> Resume \<notin> set evs \<longrightarrow>
          items_begun (run env evs s) \<le> items_begun s + 1)
     \<and> (stopped (task s) \<longrightarrow> pc (work env 5 s) = Done)"
proof -
  have m: "completed (task s) \<le> completed (task (run env evs s))"
    using behind_reachable [OF assms] by (rule completed_mono_run)
  have b: "items_begun (run env evs s) \<le> items_begun s + 1"
    if f: "paused (task s) \<or> stopped (task s)" and r: "Resume \<notin> set evs"
  proof -
    have "items_begun (run env evs s) \<le> items_bound (run env evs s)"
      by (simp add: items_bound_def)
    also have "\<dots> \<le> items_bound s" using f r by (rule bound_run)
    also have "items_bound s \<le> items_begun s + 1"
      by (simp add: items_bound_def next_item_due_def)
    finally show ?thesis .
  qed
  show ?thesis
  proof (intro conjI)
    show "pc s = Process \<or> pc s = SetCompleted \<or> pc s = SetFailed \<longrightarrow>
        worker_step env (s\<lparr>task := (task s)\<lparr>paused := p, stopped := q\<rparr>\<rparr>) =
          (worker_step env s)\<lparr>task := (task (worker_step env s))\<lparr>paused := p, stopped := q\<rparr>\<rparr>"
      by (rule impI) (rule stage_ignores_flags)
    show "pc (worker_step env s) = Process \<and> pc s \<noteq> Process \<longrightarrow>
          pc s = CheckAgain \<and> \<not> stopped (task s)"
      using process_entered_after_check [of env s] by (intro impI) (elim conjE)
    show "pc s = WaitPaused \<and> paused (task s) \<and> \<not> stopped (task s) \<longrightarrow> worker_step env s = s"
      using paused_worker_waits [of s env] by (intro impI) (elim conjE)
    show "completed (task (sys_step env s Cancel)) = completed (task s)"
      by (rule cancel_keeps_counts)
    show "completed (task s) \<le> completed (task (run env evs s))" by (rule m)
    show "(paused (task s) \<or> stopped (task s)) \<and> Resume \<notin> set evs \<longrightarrow>
          items_begun (run env evs s) \<le> items_begun s + 1"
      using b by (intro impI) (elim conjE)
    show "stopped (task s) \<longrightarrow> pc (work env 5 s) = Done"
      by (rule impI) (rule stopped_worker_ends)
  qed
qed

text \<open>The job \<open>demo_env\<close>, paused while its first item is about to be processed: that
  item is processed, and ten steps later the worker waits before the second.\<close>

lemma paused_in_process:
  "run demo_env [Work, Work, Work, Work, Pause] (start demo_env) =
     \<lparr>task = \<lparr>status = ''running'', progress = 0, total = 2, completed = 0, failed = 0,
        messages = [''Task paused by user''],
        paused = True, stopped = False, current_lecture_index = 0, items = []\<rparr>,
      pc = Process, idx = 0, l_completed = 0, l_failed = 0\<rparr>"
  by (simp add: job_eval)

lemma paused_then_waits:
  "work demo_env 10 (run demo_env [Work, Work, Work, Work, Pause] (start demo_env)) =
     \<lparr>task = \<lparr>status = ''running'', progress = 50, total = 2, completed = 0, failed = 1,
        messages = [''Task paused by user'', ''Extracting video URL for: Intro'',
          ''Downloading: Intro'', ''Failed to download: Intro''],
        paused = True, stopped = False, current_lecture_index = 0, items = []\<rparr>,
      pc = WaitPaused, idx = 1, l_completed = 0, l_failed = 1\<rparr>"
  unfolding paused_in_process by (simp add: job_eval)

subsection \<open>Claim C7: the flags and the job workers\<close>

lemma files_cancelled:
  "download_materials_task files_env (snd (cancel_job new_materials_job)) =
     \<lparr>status = ''completed'', progress = 100, total = 2, completed = 2, failed = 0,
       messages = [''Fetching course content...'', ''Task cancelled by user'',
         ''Found 2 items to process (folders will be expanded)'',
         ''Downloading file: a.pdf'', ''Downloading file: b.pdf'',
         ''Download materials task completed''],
       paused = False, stopped = True, current_lecture_index = 0, items = []\<rparr>"
  by (simp add: download_materials_task_def files_env_def new_materials_job_def cancel_job_def
        process_section_def process_material_def next_item_def say_def decimal_digit percent_facts Let_def)

lemma files_paused:
  "download_materials_task files_env (snd (pause_job new_materials_job)) =
     \<lparr>status = ''completed'', progress = 100, total = 2, completed = 2, failed = 0,
       messages = [''Fetching course content...'', ''Task paused by user'',
         ''Found 2 items to process (folders will be expanded)'',
         ''Downloading file: a.pdf'', ''Downloading file: b.pdf'',
         ''Download materials task completed''],
       paused = True, stopped = False, current_lecture_index = 0, items = []\<rparr>"
  by (simp add: download_materials_task_def files_env_def new_materials_job_def pause_job_def
        process_section_def process_material_def next_item_def say_def decimal_digit percent_facts Let_def)

text \<open>
  Claim C7 says of every job worker that the stop flag is checked before the next item
  is started, that a paused worker waits without advancing the completed count until it
  is resumed, and that at most one item beyond the pause or cancel request completes
  before the worker stops. The code at the materials download of \<open>files_env\<close>, a course
  with two files. \<open>cancel_task\<close> accepts the id of the job and sets the stop flag before
  the worker has counted anything; the worker, which reads no flag, downloads both files
  and ends the job in the state \<open>completed\<close>. \<open>pause_task\<close> accepts the id too, and with
  the pause flag set and no resume the worker completes both files.
\<close>

theorem materials_worker_ignores_flags:
  "cancel_task (Map.empty(''download_materials_1'' \<mapsto> new_materials_job))
       ''download_materials_1''
     = (Reply True ''Task cancelled'' 200,
        Map.empty(''download_materials_1'' \<mapsto> snd (cancel_job new_materials_job)))
   \<and> stopped (snd (cancel_job new_materials_job))
   \<and> completed (snd (cancel_job new_materials_job)) = 0
   \<and> completed (download_materials_task files_env (snd (cancel_job new_materials_job))) = 2
   \<and> status (download_materials_task files_env (snd (cancel_job new_materials_job)))
       = ''completed''
   \<and> stopped (download_materials_task files_env (snd (cancel_job new_materials_job)))
   \<and> pause_task (Map.empty(''download_materials_1'' \<mapsto> new_materials_job))
       ''download_materials_1''
     = (Reply True ''Task paused'' 200,
        Map.empty(''download_materials_1'' \<mapsto> snd (pause_job new_materials_job)))
   \<and> paused (snd (pause_job new_materials_job))
   \<and> completed (snd (pause_job new_materials_job)) = 0
   \<and> paused (download_materials_task files_env (snd (pause_job new_materials_job)))
   \<and> completed (download_materials_task files_env (snd (pause_job new_materials_job))) = 2"
proof -
  have c: "cancel_task (Map.empty(''download_materials_1'' \<mapsto> new_materials_job))
       ''download_materials_1''
     = (Reply True ''Task cancelled'' 200,
        Map.empty(''download_materials_1'' \<mapsto> snd (cancel_job new_materials_job)))"
    by (simp add: cancel_task_def on_task_def cancel_job_def)
  have p: "pause_task (Map.empty(''download_materials_1'' \<mapsto> new_materials_job))
       ''download_materials_1''
     = (Reply True ''Task paused'' 200,
        Map.empty(''download_materials_1'' \<mapsto> snd (pause_job new_materials_job)))"
    by (simp add: pause_task_def on_task_def pause_job_def new_materials_job_def)
  have f: "stopped (snd (cancel_job new_materials_job))"
    "completed (snd (cancel_job new_materials_job)) = 0"
    "paused (snd (pause_job new_materials_job))"
    "completed (snd (pause_job new_materials_job)) = 0"
    by (simp_all add: cancel_job_def pause_job_def new_materials_job_def)
  show ?thesis using c p f by (simp only: files_cancelled files_paused) simp
qed


subsection \<open>Claim C8: a failing item and a failing job\<close>

text \<open>No step of the worker and no control request writes the per-item map of a batch
  download: it stays as \<open>download_lectures\<close> created it, empty.\<close>

lemma items_step: "items (task (sys_step env s ev)) = items (task s)"
  by (cases ev; cases "pc s"; cases "item_outcome env (idx s)")
     (simp_all add: sys_step_def worker_step_def process_item_def skip_update_def stop_now_def
        pause_job_def resume_job_def cancel_job_def Let_def split: option.splits)

lemma items_run: "items (task (run env evs s)) = items (task s)"
  by (induction evs arbitrary: s) (simp_all add: items_step)

lemma items_never_written: "reachable env s \<Longrightarrow> items (task s) = []"
  by (auto simp: reachable_def items_run start_def new_job_def)

text \<open>An item that is not downloaded is counted as failed by the worker, a message is
  logged, the state of the job stays what it was and the worker goes on to the next
  index; a failure at the start of the job ends it in the state \<open>error\<close> with a last
  message.\<close>

lemma item_failure_isolated:
  assumes "pc s = Process" and "\<forall>t. item_outcome env (idx s) \<noteq> Downloaded t"
  shows "l_failed (worker_step env s) = l_failed s + 1
     \<and> l_completed (worker_step env s) = l_completed s
     \<and> (\<exists>ms. ms \<noteq> [] \<and> messages (task (worker_step env s)) = messages (task s) @ ms)
     \<and> status (task (worker_step env s)) = status (task s)
     \<and> items (task (worker_step env s)) = items (task s)
     \<and> (pc (worker_step env s) = CheckStopped \<and> idx (worker_step env s) = idx s + 1
        \<or> pc (work env 3 s) = CheckStopped \<and> idx (work env 3 s) = idx s + 1)"
  using assms
  by (cases "item_outcome env (idx s)")
     (simp_all add: worker_step_def process_item_def skip_update_def Let_def work_numeral
        work_Suc)

lemma job_failure_ends_in_error:
  assumes "pc s = Start" and "setup_error env = Some e"
  shows "status (task (worker_step env s)) = ''error''
     \<and> messages (task (worker_step env s)) = messages (task s) @ [''Task error: '' @ e]
     \<and> pc (worker_step env s) = Done"
  using assms by (simp add: worker_step_def)

lemma demo_first_failed:
  "work demo_env 5 (start demo_env) =
     \<lparr>task = \<lparr>status = ''running'', progress = 50, total = 2, completed = 0, failed = 0,
        messages = [''Extracting video URL for: Intro'', ''Downloading: Intro'',
          ''Failed to download: Intro''],
        paused = False, stopped = False, current_lecture_index = 0, items = []\<rparr>,
      pc = SetCompleted, idx = 0, l_completed = 0, l_failed = 1\<rparr>"
  by (simp add: job_eval)

text \<open>
  Claim C8 says that a failing item is marked Failed in the per-item status map. The code
  at the job \<open>demo_env\<close>, whose first download fails: after the item the failure is
  counted and logged, and the job goes on and completes with one lecture downloaded and
  one failed, but the per-item map has no entry for \<open>L1\<close>, then or at the end.
\<close>

theorem failed_item_not_marked:
  "lecture_ids demo_env ! 0 = ''L1''
   \<and> item_outcome demo_env 0 = DownloadFailed ''Intro''
   \<and> l_failed (work demo_env 5 (start demo_env)) = 1
   \<and> messages (task (work demo_env 5 (start demo_env))) =
       [''Extracting video URL for: Intro'', ''Downloading: Intro'', ''Failed to download: Intro'']
   \<and> map_of (items (task (work demo_env 5 (start demo_env)))) ''L1'' = None
   \<and> status (task (work demo_env 15 (start demo_env))) = ''completed''
   \<and> failed (task (work demo_env 15 (start demo_env))) = 1
   \<and> completed (task (work demo_env 15 (start demo_env))) = 1
   \<and> map_of (items (task (work demo_env 15 (start demo_env)))) ''L1'' = None"
proof -
  have a: "lecture_ids demo_env ! 0 = ''L1''" "item_outcome demo_env 0 = DownloadFailed ''Intro''"
    by (simp_all add: demo_env_def)
  show ?thesis using a by (simp only: demo_first_failed demo_done) simp
qed


section \<open>Properties of the catalog cache\<close>

lemma cache_get_Some_iff:
  "cache_get env force_refresh cks f = Some d \<longleftrightarrow>
     \<not> force_refresh \<and> (\<exists>mtime. f = CacheFile mtime (Some d) \<and> now env - mtime < 3600)
     \<and> cached_auth_cookies d = cks"
  by (cases f) (auto simp: cache_get_def Let_def split: option.splits)

lemma check_all_calls:
  "check_all env ps acc = (cs, av, calls) \<Longrightarrow> \<forall>c\<in>set (snd (snd acc)). \<not> secondary c \<Longrightarrow>
     \<forall>c\<in>set calls. \<not> secondary c"
proof (induction env ps acc rule: check_all.induct)
  case (1 env acc)
  then show ?case by auto
next
  case (2 env check_year check_sem rest all_courses available_semesters calls0)
  show ?case
  proof (cases "parse_course_list env check_year check_sem \<noteq> []")
    case True
    with "2.prems" "2.IH"(1) [OF refl refl True] show ?thesis
      by (simp add: Let_def secondary_def)
  next
    case False
    with "2.prems" "2.IH"(2) [OF refl refl] show ?thesis
      by (simp add: Let_def secondary_def)
  qed
qed

lemma discovery_calls:
  "discovery env args = (cs, av, calls) \<Longrightarrow> \<forall>c\<in>set calls. \<not> secondary c"
  unfolding discovery_def
  by (auto simp: Let_def secondary_def split: if_splits prod.splits dest!: check_all_calls)

lemma fetch_hit:
  assumes "auth_session srv = Some cks"
    and "cache_get env (arg_force_refresh args = Some (py ''true'')) cks (cache_file srv) = Some d"
  shows "\<exists>p calls. fetch_all_courses env args srv =
        (Fetched p, srv\<lparr>courses_cache := cached_courses_cache d,
                       lectures_cache := cached_lectures d\<rparr>, calls)
      \<and> p_courses p = cached_courses_data d
      \<and> p_total_courses p = length (cached_courses_data d)
      \<and> p_from_cache p
      \<and> p_available_semesters p =
          (if arg_discover args = Some (py ''true'') then Some (fst (snd (discovery env args)))
           else None)
      \<and> (\<forall>c\<in>set calls. \<not> secondary c)"
proof -
  obtain cs av calls where d: "discovery env args = (cs, av, calls)"
    by (cases "discovery env args")
  show ?thesis
    using assms d discovery_calls [OF d]
    by (simp add: fetch_all_courses_def Let_def)
qed

lemma fetch_Fetched_cases:
  assumes "auth_session srv = Some cks"
    and "fetch_all_courses env args srv = (Fetched p, srv', calls)"
  shows "p_total_courses p = length (p_courses p)
     \<and> p_available_semesters p =
          (if arg_discover args = Some (py ''true'') then Some (fst (snd (discovery env args)))
           else None)
     \<and> ((p_from_cache p \<and>
           (\<exists>d. cache_get env (arg_force_refresh args = Some (py ''true'')) cks (cache_file srv)
                  = Some d
              \<and> p_courses p = cached_courses_data d \<and> cache_file srv' = cache_file srv))
       \<or> (\<not> p_from_cache p \<and>
           cache_get env (arg_force_refresh args = Some (py ''true'')) cks (cache_file srv) = None
           \<and> p_courses p = fst (parse_all env (fst (discovery env args)))
           \<and> (\<exists>e. cache_file srv' = cache_put env e (cache_file srv)
                \<and> cached_courses_data e = p_courses p \<and> cached_auth_cookies e = cks
                \<and> cached_timestamp e = now env)))"
proof -
  obtain cs av cl where d: "discovery env args = (cs, av, cl)"
    by (cases "discovery env args")
  obtain cd al cc where pa: "parse_all env cs = (cd, al, cc)"
    by (cases "parse_all env cs")
  show ?thesis
  proof (cases "cache_get env (arg_force_refresh args = Some (py ''true'')) cks (cache_file srv)")
    case None
    with assms d pa show ?thesis
      by (auto simp: fetch_all_courses_def Let_def split: if_splits)
  next
    case (Some a)
    with assms d show ?thesis
      by (auto simp: fetch_all_courses_def Let_def)
  qed
qed

lemma auth_session_kept:
  "fetch_all_courses env args srv = (r, srv', calls) \<Longrightarrow> auth_session srv' = auth_session srv"
  by (cases "discovery env args"; cases "parse_all env (fst (discovery env args))")
     (auto simp: fetch_all_courses_def Let_def split: option.splits if_splits)

text \<open>The catalog that is parsed has one entry, for the course that completed last,
  however many courses were found; the courses of \<open>courses_cache\<close> are all of them.\<close>

lemma parse_all_one_entry:
  "length (fst (parse_all env all_courses)) = 1
   \<and> length (snd (snd (parse_all env all_courses))) = length all_courses"
  by (simp add: parse_all_def Let_def split: prod.splits)

subsection \<open>A concrete session\<close>

lemma py_str_2026: "py_str 2026 = [50, 48, 50, 54]"
  by (simp add: py_str_def)

lemma demo_discovery:
  "discovery (demo_fetch\<lparr>now := t\<rparr>) demo_args =
     ([demo_course], [], [ListCourses [50, 48, 50, 54] (py ''20'')])"
  by (simp add: discovery_def demo_args_def demo_fetch_def truthy_def get_current_semester_def
        py_str_2026 Let_def)

lemma demo_parse_all:
  "parse_all (demo_fetch\<lparr>now := t\<rparr>) [demo_course] = ([demo_entry], [], [demo_course])"
  by (simp add: parse_all_def parse_single_course_def course_entry_def demo_fetch_def
        demo_course_def demo_entry_def truthy_def merge_videos_def sections_used_def Let_def)

lemma demo_first_call:
  "fetch_all_courses demo_fetch demo_args demo_server =
     (Fetched \<lparr>p_courses = [demo_entry], p_total_courses = 1, p_from_cache = False,
        p_available_semesters = None\<rparr>,
      demo_server1,
      [ListCourses [50, 48, 50, 54] (py ''20''), CourseContent (py ''101''),
       LectureList (py ''/course/view.php?id=101'')])"
proof -
  have e: "demo_fetch = demo_fetch\<lparr>now := 1000\<rparr>" by (simp add: demo_fetch_def)
  have n: "now demo_fetch = 1000" "save demo_fetch = Saved" by (simp_all add: demo_fetch_def)
  have a: "auth_session demo_server = Some demo_cookies" "cache_file demo_server = NoFile"
    by (simp_all add: demo_server_def)
  have d: "discovery demo_fetch demo_args =
     ([demo_course], [], [ListCourses [50, 48, 50, 54] (py ''20'')])"
    using demo_discovery [of 1000] e by simp
  have p: "parse_all demo_fetch [demo_course] = ([demo_entry], [], [demo_course])"
    using demo_parse_all [of 1000] e by simp
  have ar: "arg_discover demo_args = None" "arg_force_refresh demo_args = None"
    by (simp_all add: demo_args_def)
  have c: "calls_of_course demo_course =
      [CourseContent (py ''101''), LectureList (py ''/course/view.php?id=101'')]"
    by (simp add: calls_of_course_def demo_course_def)
  show ?thesis
    by (simp add: fetch_all_courses_def a d p n ar c cache_get_def cache_put_def
          demo_server1_def demo_cached_def Let_def)
qed


subsection \<open>Claim C5: what the cache serves and stores\<close>

text \<open>
  Claim C5. For a request that is answered with a catalog: the answer comes from the
  cache only if \<open>force_refresh\<close> is not set and the stored entry is younger than 3600
  seconds, strictly, and was stored under the caller's cookies, and then it is that
  entry's catalog; an entry of age 3600 seconds or more, or one stored under other
  cookies, is not served: the catalog is then parsed anew. The write of an entry that
  succeeds replaces whatever the file held. A request with \<open>force_refresh\<close> reads nothing
  from the cache, whatever the file holds, parses the catalog anew and puts it into the
  cache under the caller's cookies.
\<close>

theorem cache_serves_fresh_matching_entry:
  assumes "auth_session srv = Some cks"
    and "fetch_all_courses env args srv = (Fetched p, srv', calls)"
  shows "(p_from_cache p \<longrightarrow>
            arg_force_refresh args \<noteq> Some (py ''true'')
            \<and> (\<exists>mtime d. cache_file srv = CacheFile mtime (Some d) \<and> now env - mtime < 3600
                  \<and> cached_auth_cookies d = cks \<and> p_courses p = cached_courses_data d))
     \<and> (\<forall>mtime d. cache_file srv = CacheFile mtime (Some d)
            \<and> (3600 \<le> now env - mtime \<or> cached_auth_cookies d \<noteq> cks)
          \<longrightarrow> \<not> p_from_cache p \<and> p_courses p = fst (parse_all env (fst (discovery env args))))
     \<and> (save env = Saved \<longrightarrow> cache_put env e f = CacheFile (now env) (Some e))
     \<and> (arg_force_refresh args = Some (py ''true'') \<longrightarrow>
            cache_get env True cks f = None \<and> \<not> p_from_cache p
            \<and> p_courses p = fst (parse_all env (fst (discovery env args)))
            \<and> (\<exists>e'. cache_file srv' = cache_put env e' (cache_file srv)
                  \<and> cached_courses_data e' = p_courses p \<and> cached_auth_cookies e' = cks))"
proof -
  note c = fetch_Fetched_cases [OF assms]
  have a: "arg_force_refresh args \<noteq> Some (py ''true'')
            \<and> (\<exists>mtime d. cache_file srv = CacheFile mtime (Some d) \<and> now env - mtime < 3600
                  \<and> cached_auth_cookies d = cks \<and> p_courses p = cached_courses_data d)"
    if "p_from_cache p"
    using c that by (auto simp: cache_get_Some_iff)
  have b: "\<not> p_from_cache p \<and> p_courses p = fst (parse_all env (fst (discovery env args)))"
    if "cache_file srv = CacheFile mtime (Some d)"
      "3600 \<le> now env - mtime \<or> cached_auth_cookies d \<noteq> cks" for mtime d
    using c that by (auto simp: cache_get_Some_iff)
  have d: "cache_put env e f = CacheFile (now env) (Some e)" if "save env = Saved"
    using that by (simp add: cache_put_def)
  have g: "cache_get env True cks f = None" by (simp add: cache_get_def)
  have h: "\<not> p_from_cache p
            \<and> p_courses p = fst (parse_all env (fst (discovery env args)))
            \<and> (\<exists>e'. cache_file srv' = cache_put env e' (cache_file srv)
                  \<and> cached_courses_data e' = p_courses p \<and> cached_auth_cookies e' = cks)"
    if "arg_force_refresh args = Some (py ''true'')"
    using c that by (auto simp: cache_get_Some_iff)
  show ?thesis using a b d g h by blast
qed


subsection \<open>Claim C4: the second call within the time to live\<close>

text \<open>
  Claim C4, as amended. Let a first request of a caller be answered with a catalog, from
  the cache or parsed and stored. A second request of the same caller without
  \<open>force_refresh\<close>, made while the cache file is younger than 3600 seconds, is answered
  from the cache: it makes no call for the content or the lectures of a course (only the
  course lists are fetched again, before the cache is read), its courses and their number
  are those of the first answer, it carries the key \<open>from_cache\<close>, it leaves the cache
  file as it is, and when the course lists come out the same the available semesters
  are the same too; the whole answer is that of the first request when the first was
  itself answered from the cache and the course lists come out the same. A request with
  \<open>force_refresh\<close>, or one made when the file is 3600 seconds old or older, that is
  answered with a catalog has parsed it anew and stored it in the cache, with the
  caller's cookies and the time of the request.
\<close>

theorem second_call_served_from_cache:
  assumes "auth_session srv = Some cks"
    and "fetch_all_courses env1 args1 srv = (Fetched p1, srv1, calls1)"
    and "p_from_cache p1 \<or> save env1 = Saved"
  shows "(arg_force_refresh args2 \<noteq> Some (py ''true'') \<and> fresh env2 (cache_file srv1) \<longrightarrow>
            (\<exists>p2 srv2 calls2. fetch_all_courses env2 args2 srv1 = (Fetched p2, srv2, calls2)
               \<and> p_courses p2 = p_courses p1 \<and> p_total_courses p2 = p_total_courses p1
               \<and> p_from_cache p2 \<and> (\<forall>c\<in>set calls2. \<not> secondary c)
               \<and> cache_file srv2 = cache_file srv1
               \<and> (arg_discover args2 = arg_discover args1
                    \<and> discovery env2 args2 = discovery env1 args1
                   \<longrightarrow> p_available_semesters p2 = p_available_semesters p1
                       \<and> (p_from_cache p1 \<longrightarrow> p2 = p1))))
     \<and> ((arg_force_refresh args2 = Some (py ''true'') \<or> \<not> fresh env2 (cache_file srv1))
          \<and> fetch_all_courses env2 args2 srv1 = (Fetched p3, srv3, calls3) \<and> save env2 = Saved
         \<longrightarrow> \<not> p_from_cache p3
            \<and> p_courses p3 = fst (parse_all env2 (fst (discovery env2 args2)))
            \<and> (\<exists>e. cache_file srv3 = CacheFile (now env2) (Some e)
                  \<and> cached_courses_data e = p_courses p3 \<and> cached_auth_cookies e = cks
                  \<and> cached_timestamp e = now env2))"
proof -
  note c1 = fetch_Fetched_cases [OF assms(1,2)]
  have au: "auth_session srv1 = Some cks"
    using auth_session_kept [OF assms(2)] assms(1) by simp
  have stored: "\<exists>mtime d. cache_file srv1 = CacheFile mtime (Some d)
      \<and> cached_auth_cookies d = cks \<and> cached_courses_data d = p_courses p1"
  proof (cases "p_from_cache p1")
    case True
    with c1 show ?thesis by (auto simp: cache_get_Some_iff)
  next
    case False
    with assms(3) have "save env1 = Saved" by simp
    with c1 False show ?thesis by (auto simp: cache_put_def)
  qed
  have first: "\<exists>p2 srv2 calls2. fetch_all_courses env2 args2 srv1 = (Fetched p2, srv2, calls2)
               \<and> p_courses p2 = p_courses p1 \<and> p_total_courses p2 = p_total_courses p1
               \<and> p_from_cache p2 \<and> (\<forall>c\<in>set calls2. \<not> secondary c)
               \<and> cache_file srv2 = cache_file srv1
               \<and> (arg_discover args2 = arg_discover args1
                    \<and> discovery env2 args2 = discovery env1 args1
                   \<longrightarrow> p_available_semesters p2 = p_available_semesters p1
                       \<and> (p_from_cache p1 \<longrightarrow> p2 = p1))"
    if nf: "arg_force_refresh args2 \<noteq> Some (py ''true'')" and fr: "fresh env2 (cache_file srv1)"
  proof -
    from stored obtain mtime d where d: "cache_file srv1 = CacheFile mtime (Some d)"
      "cached_auth_cookies d = cks" "cached_courses_data d = p_courses p1" by blast
    from fr d(1) have "now env2 - mtime < 3600" by (simp add: fresh_def)
    with d nf have g: "cache_get env2 (arg_force_refresh args2 = Some (py ''true'')) cks
        (cache_file srv1) = Some d"
      by (simp add: cache_get_Some_iff)
    from fetch_hit [OF au g] obtain p2 calls2 where
      h: "fetch_all_courses env2 args2 srv1 =
        (Fetched p2, srv1\<lparr>courses_cache := cached_courses_cache d,
                       lectures_cache := cached_lectures d\<rparr>, calls2)"
        "p_courses p2 = cached_courses_data d"
        "p_total_courses p2 = length (cached_courses_data d)"
        "p_from_cache p2"
        "p_available_semesters p2 =
          (if arg_discover args2 = Some (py ''true'') then Some (fst (snd (discovery env2 args2)))
           else None)"
        "\<forall>c\<in>set calls2. \<not> secondary c"
      by blast
    have t: "p_total_courses p2 = p_total_courses p1" using h(2,3) d(3) c1 by simp
    have av: "p_available_semesters p2 = p_available_semesters p1"
      if "arg_discover args2 = arg_discover args1" "discovery env2 args2 = discovery env1 args1"
      using h(5) c1 that by simp
    have pc: "p_courses p2 = p_courses p1" using h(2) d(3) by simp
    have whole: "p2 = p1"
      if "arg_discover args2 = arg_discover args1" "discovery env2 args2 = discovery env1 args1"
        "p_from_cache p1"
      using pc t h(4) av [OF that(1,2)] that(3) by (cases p1; cases p2) simp
    show ?thesis
      apply (rule exI [of _ p2])
      apply (rule exI [of _ "srv1\<lparr>courses_cache := cached_courses_cache d,
                       lectures_cache := cached_lectures d\<rparr>"])
      apply (rule exI [of _ calls2])
      using h(1,4,6) pc t av whole apply simp
      done
  qed
  have second: "\<not> p_from_cache p3
            \<and> p_courses p3 = fst (parse_all env2 (fst (discovery env2 args2)))
            \<and> (\<exists>e. cache_file srv3 = CacheFile (now env2) (Some e)
                  \<and> cached_courses_data e = p_courses p3 \<and> cached_auth_cookies e = cks
                  \<and> cached_timestamp e = now env2)"
    if ex: "arg_force_refresh args2 = Some (py ''true'') \<or> \<not> fresh env2 (cache_file srv1)"
      and f: "fetch_all_courses env2 args2 srv1 = (Fetched p3, srv3, calls3)"
      and sv: "save env2 = Saved"
  proof -
    note c2 = fetch_Fetched_cases [OF au f]
    have "cache_get env2 (arg_force_refresh args2 = Some (py ''true'')) cks (cache_file srv1) = None"
      using ex by (cases "cache_file srv1") (auto simp: cache_get_def fresh_def Let_def)
    with c2 sv show ?thesis by (auto simp: cache_put_def)
  qed
  show ?thesis using first second by blast
qed

lemma demo_server1_facts:
  "auth_session demo_server1 = Some demo_cookies"
  "cache_file demo_server1 = CacheFile 1000 (Some demo_cached)"
  "demo_server1\<lparr>courses_cache := [demo_course], lectures_cache := []\<rparr> = demo_server1"
  by (simp_all add: demo_server1_def demo_server_def)

lemma demo_second_call:
  "fetch_all_courses (demo_fetch\<lparr>now := 3600\<rparr>) demo_args demo_server1 =
     (Fetched \<lparr>p_courses = [demo_entry], p_total_courses = 1, p_from_cache = True,
        p_available_semesters = None\<rparr>,
      demo_server1,
      [ListCourses [50, 48, 50, 54] (py ''20'')])"
proof -
  have ar: "arg_discover demo_args = None" "arg_force_refresh demo_args = None"
    by (simp_all add: demo_args_def)
  have g: "cache_get (demo_fetch\<lparr>now := 3600\<rparr>) False demo_cookies
      (CacheFile 1000 (Some demo_cached)) = Some demo_cached"
    by (simp add: cache_get_def demo_cached_def Let_def)
  have c: "cached_courses_data demo_cached = [demo_entry]"
    "cached_courses_cache demo_cached = [demo_course]" "cached_lectures demo_cached = []"
    by (simp_all add: demo_cached_def)
  show ?thesis
    by (simp add: fetch_all_courses_def demo_server1_facts demo_discovery ar g c Let_def)
qed

lemma demo_third_call:
  "fetch_all_courses (demo_fetch\<lparr>now := 4600\<rparr>) demo_args demo_server1 =
     (Fetched \<lparr>p_courses = [demo_entry], p_total_courses = 1, p_from_cache = False,
        p_available_semesters = None\<rparr>,
      demo_server1\<lparr>cache_file := CacheFile 4600 (Some (demo_cached\<lparr>cached_timestamp := 4600\<rparr>))\<rparr>,
      [ListCourses [50, 48, 50, 54] (py ''20''), CourseContent (py ''101''),
       LectureList (py ''/course/view.php?id=101'')])"
proof -
  have ar: "arg_discover demo_args = None" "arg_force_refresh demo_args = None"
    by (simp_all add: demo_args_def)
  have g: "cache_get (demo_fetch\<lparr>now := 4600\<rparr>) False demo_cookies
      (CacheFile 1000 (Some demo_cached)) = None"
    by (simp add: cache_get_def demo_cached_def Let_def)
  have c: "calls_of_course demo_course =
      [CourseContent (py ''101''), LectureList (py ''/course/view.php?id=101'')]"
    by (simp add: calls_of_course_def demo_course_def)
  have n: "save (demo_fetch\<lparr>now := 4600\<rparr>) = Saved" by (simp add: demo_fetch_def)
  show ?thesis
    by (simp add: fetch_all_courses_def demo_server1_facts(1,2) demo_discovery demo_parse_all
          ar g c n cache_put_def Let_def)
       (simp add: demo_server1_def demo_cached_def)
qed

text \<open>The theorem of claim C5 at the second request of the session, 2600 seconds after
  the first.\<close>

theorem cache_serves_fresh_matching_entry_witness:
  "auth_session demo_server1 = Some demo_cookies
   \<and> p_from_cache \<lparr>p_courses = [demo_entry], p_total_courses = 1, p_from_cache = True,
        p_available_semesters = None\<rparr>
   \<and> arg_force_refresh demo_args \<noteq> Some (py ''true'')
   \<and> (\<exists>mtime d. cache_file demo_server1 = CacheFile mtime (Some d)
         \<and> now (demo_fetch\<lparr>now := 3600\<rparr>) - mtime < 3600
         \<and> cached_auth_cookies d = demo_cookies
         \<and> p_courses \<lparr>p_courses = [demo_entry], p_total_courses = 1, p_from_cache = True,
              p_available_semesters = None\<rparr> = cached_courses_data d)"
proof -
  let ?p = "\<lparr>p_courses = [demo_entry], p_total_courses = 1, p_from_cache = True,
        p_available_semesters = None\<rparr>"
  have f: "p_from_cache ?p" by simp
  from cache_serves_fresh_matching_entry [OF demo_server1_facts(1) demo_second_call]
  have "p_from_cache ?p \<longrightarrow>
            arg_force_refresh demo_args \<noteq> Some (py ''true'')
            \<and> (\<exists>mtime d. cache_file demo_server1 = CacheFile mtime (Some d)
                  \<and> now (demo_fetch\<lparr>now := 3600\<rparr>) - mtime < 3600
                  \<and> cached_auth_cookies d = demo_cookies \<and> p_courses ?p = cached_courses_data d)"
    by (rule conjunct1)
  with f demo_server1_facts(1) show ?thesis by blast
qed

text \<open>The theorem of claim C4 at the session: the second request, 2600 seconds after the
  first, is served from the cache; 3600 seconds after the first the file is no longer
  fresh.\<close>

theorem second_call_served_from_cache_witness:
  "auth_session demo_server = Some demo_cookies
   \<and> save demo_fetch = Saved
   \<and> fresh (demo_fetch\<lparr>now := 3600\<rparr>) (cache_file demo_server1)
   \<and> (\<exists>p2 srv2 calls2.
         fetch_all_courses (demo_fetch\<lparr>now := 3600\<rparr>) demo_args demo_server1
           = (Fetched p2, srv2, calls2)
         \<and> p_courses p2 = [demo_entry] \<and> p_from_cache p2
         \<and> (\<forall>c\<in>set calls2. \<not> secondary c) \<and> cache_file srv2 = cache_file demo_server1)
   \<and> \<not> fresh (demo_fetch\<lparr>now := 4600\<rparr>) (cache_file demo_server1)"
proof -
  let ?p1 = "\<lparr>p_courses = [demo_entry], p_total_courses = 1, p_from_cache = False,
        p_available_semesters = None\<rparr>"
  have a: "auth_session demo_server = Some demo_cookies" by (simp add: demo_server_def)
  have s: "save demo_fetch = Saved" by (simp add: demo_fetch_def)
  then have s': "p_from_cache ?p1 \<or> save demo_fetch = Saved" by simp
  have nf: "arg_force_refresh demo_args \<noteq> Some (py ''true'')" by (simp add: demo_args_def)
  have fr: "fresh (demo_fetch\<lparr>now := 3600\<rparr>) (cache_file demo_server1)"
    by (simp add: fresh_def demo_server1_facts)
  have st: "\<not> fresh (demo_fetch\<lparr>now := 4600\<rparr>) (cache_file demo_server1)"
    by (simp add: fresh_def demo_server1_facts)
  have "arg_force_refresh demo_args \<noteq> Some (py ''true'')
      \<and> fresh (demo_fetch\<lparr>now := 3600\<rparr>) (cache_file demo_server1) \<longrightarrow>
            (\<exists>p2 srv2 calls2. fetch_all_courses (demo_fetch\<lparr>now := 3600\<rparr>) demo_args demo_server1
                  = (Fetched p2, srv2, calls2)
               \<and> p_courses p2 = p_courses ?p1 \<and> p_total_courses p2 = p_total_courses ?p1
               \<and> p_from_cache p2 \<and> (\<forall>c\<in>set calls2. \<not> secondary c)
               \<and> cache_file srv2 = cache_file demo_server1
               \<and> (arg_discover demo_args = arg_discover demo_args
                    \<and> discovery (demo_fetch\<lparr>now := 3600\<rparr>) demo_args = discovery demo_fetch demo_args
                   \<longrightarrow> p_available_semesters p2 = p_available_semesters ?p1
                       \<and> (p_from_cache ?p1 \<longrightarrow> p2 = ?p1)))"
    using second_call_served_from_cache [OF a demo_first_call s',
        of demo_args "demo_fetch\<lparr>now := 3600\<rparr>"]
    by (rule conjunct1)
  with nf fr have "\<exists>p2 srv2 calls2.
         fetch_all_courses (demo_fetch\<lparr>now := 3600\<rparr>) demo_args demo_server1
           = (Fetched p2, srv2, calls2)
         \<and> p_courses p2 = [demo_entry] \<and> p_from_cache p2
         \<and> (\<forall>c\<in>set calls2. \<not> secondary c) \<and> cache_file srv2 = cache_file demo_server1"
    by simp blast
  with a s fr st show ?thesis by blast
qed

text \<open>
  The claim as stated says that the second answer is byte-identical to the first. In the
  session the first request is answered with the parsed catalog and stores it; the
  second, 2600 seconds later on the server that the first has left, without
  \<open>force_refresh\<close> and with the file still fresh, is answered from the cache with the key
  \<open>from_cache\<close>, which line 243 adds and the first answer does not have: the two answers
  differ.
\<close>

theorem second_answer_marked_counterexample:
  "fetch_all_courses demo_fetch demo_args demo_server =
     (Fetched \<lparr>p_courses = [demo_entry], p_total_courses = 1, p_from_cache = False,
        p_available_semesters = None\<rparr>,
      demo_server1,
      [ListCourses [50, 48, 50, 54] (py ''20''), CourseContent (py ''101''),
       LectureList (py ''/course/view.php?id=101'')])
   \<and> auth_session demo_server1 = auth_session demo_server
   \<and> arg_force_refresh demo_args = None
   \<and> fresh (demo_fetch\<lparr>now := 3600\<rparr>) (cache_file demo_server1)
   \<and> fetch_all_courses (demo_fetch\<lparr>now := 3600\<rparr>) demo_args demo_server1 =
     (Fetched \<lparr>p_courses = [demo_entry], p_total_courses = 1, p_from_cache = True,
        p_available_semesters = None\<rparr>,
      demo_server1,
      [ListCourses [50, 48, 50, 54] (py ''20'')])
   \<and> fst (fetch_all_courses (demo_fetch\<lparr>now := 3600\<rparr>) demo_args demo_server1)
       \<noteq> fst (fetch_all_courses demo_fetch demo_args demo_server)"
proof -
  have a: "auth_session demo_server1 = auth_session demo_server"
    "arg_force_refresh demo_args = None"
    "fresh (demo_fetch\<lparr>now := 3600\<rparr>) (cache_file demo_server1)"
    by (simp_all add: demo_server1_def demo_server_def demo_args_def fresh_def)
  show ?thesis using a by (simp only: demo_first_call demo_second_call) simp
qed

text \<open>A request that finds no course is not answered with a catalog: the executor
  cannot be made for zero workers, the answer is the status 500, and the server and its
  cache file stay as they were.\<close>

lemma no_courses_no_catalog:
  assumes "auth_session srv = Some cks"
    and "fst (discovery env args) = []"
    and "cache_get env (arg_force_refresh args = Some (py ''true'')) cks (cache_file srv) = None"
  shows "\<exists>calls. fetch_all_courses env args srv =
     (FetchError ''Error fetching courses: max_workers must be greater than 0'', srv, calls)"
  using assms by (cases "discovery env args") (simp add: fetch_all_courses_def Let_def)

end
